theory Spec2Isabelle
  imports Complex_Main "HOL-Library.Multiset"
begin

section \<open>Numbers and dates of the host language\<close>

text \<open>
  The two query handlers \<open>getNextLoanPayment\<close> and \<open>getLoanDetails\<close> compute with
  JavaScript numbers and \<open>Date\<close> objects.  Currency amounts and rates are embedded as exact
  rationals (\<^typ>\<open>rat\<close>): finite values, with the rounding error of binary floating point
  left out.  Timestamps are integral milliseconds since the epoch (\<^typ>\<open>int\<close>), as
  \<open>Date.now()\<close> and \<open>Date.getTime()\<close> produce them.  The handlers run on a server whose
  local time zone is UTC, so \<open>getFullYear\<close>, \<open>getMonth\<close> and \<open>setMonth\<close> are the UTC
  day arithmetic of ECMA-262, section "Date Objects", transcribed below.
\<close>

datatype jsnum = NaN | Num int

definition msPerDay :: int where
  "msPerDay = 86400000"

definition Day :: "int \<Rightarrow> int" where
  "Day t = t div msPerDay"

definition TimeWithinDay :: "int \<Rightarrow> int" where
  "TimeWithinDay t = t mod msPerDay"

definition DaysInYear :: "int \<Rightarrow> int" where
  "DaysInYear y =
     (if y mod 4 \<noteq> 0 then 365
      else if y mod 100 \<noteq> 0 then 366
      else if y mod 400 \<noteq> 0 then 365
      else 366)"

definition DayFromYear :: "int \<Rightarrow> int" where
  "DayFromYear y =
     365 * (y - 1970) + (y - 1969) div 4 - (y - 1901) div 100 + (y - 1601) div 400"

text \<open>
  ECMA-262 defines \<open>YearFromTime(t)\<close> as the largest \<open>y\<close> whose first day is not after
  \<open>t\<close>.  \<open>yearFromDay\<close> computes it: an estimate from the mean length of a Gregorian
  year, corrected by at most one (lemma \<open>yearFromDay_largest\<close> below).
\<close>

definition yearFromDay :: "int \<Rightarrow> int" where
  "yearFromDay d =
     (let y = 1970 + (d * 400) div 146097
      in if d < DayFromYear y then y - 1
         else if DayFromYear (y + 1) \<le> d then y + 1
         else y)"

definition YearFromTime :: "int \<Rightarrow> int" where
  "YearFromTime t = yearFromDay (Day t)"

definition InLeapYear :: "int \<Rightarrow> int" where
  "InLeapYear t = (if DaysInYear (YearFromTime t) = 366 then 1 else 0)"

definition DayWithinYear :: "int \<Rightarrow> int" where
  "DayWithinYear t = Day t - DayFromYear (YearFromTime t)"

definition MonthFromTime :: "int \<Rightarrow> int" where
  "MonthFromTime t =
     (let d = DayWithinYear t; l = InLeapYear t
      in if d < 31 then 0
         else if d < 59 + l then 1
         else if d < 90 + l then 2
         else if d < 120 + l then 3
         else if d < 151 + l then 4
         else if d < 181 + l then 5
         else if d < 212 + l then 6
         else if d < 243 + l then 7
         else if d < 273 + l then 8
         else if d < 304 + l then 9
         else if d < 334 + l then 10
         else 11)"

definition DateFromTime :: "int \<Rightarrow> int" where
  "DateFromTime t =
     (let d = DayWithinYear t; l = InLeapYear t; m = MonthFromTime t
      in if m = 0 then d + 1
         else if m = 1 then d - 30
         else if m = 2 then d - 58 - l
         else if m = 3 then d - 89 - l
         else if m = 4 then d - 119 - l
         else if m = 5 then d - 150 - l
         else if m = 6 then d - 180 - l
         else if m = 7 then d - 211 - l
         else if m = 8 then d - 242 - l
         else if m = 9 then d - 272 - l
         else if m = 10 then d - 303 - l
         else d - 333 - l)"

text \<open>The day number of the first day of month \<open>mn\<close> (0 to 11) of year \<open>ym\<close>.\<close>

definition monthStartDay :: "int \<Rightarrow> int \<Rightarrow> int" where
  "monthStartDay ym mn =
     (let l = (if DaysInYear ym = 366 then 1 else 0)
      in DayFromYear ym +
         (if mn = 0 then 0
          else if mn = 1 then 31
          else if mn = 2 then 59 + l
          else if mn = 3 then 90 + l
          else if mn = 4 then 120 + l
          else if mn = 5 then 151 + l
          else if mn = 6 then 181 + l
          else if mn = 7 then 212 + l
          else if mn = 8 then 243 + l
          else if mn = 9 then 273 + l
          else if mn = 10 then 304 + l
          else 334 + l))"

definition MakeDay :: "int \<Rightarrow> int \<Rightarrow> int \<Rightarrow> int" where
  "MakeDay year month dt =
     (let ym = year + month div 12; mn = month mod 12
      in monthStartDay ym mn + dt - 1)"

definition MakeDate :: "int \<Rightarrow> int \<Rightarrow> int" where
  "MakeDate day time = day * msPerDay + time"

definition TimeClip :: "int \<Rightarrow> jsnum" where
  "TimeClip t = (if \<bar>t\<bar> > 8640000000000000 then NaN else Num t)"

text \<open>\<open>new Date(value)\<close> for a number; an out-of-range value gives an invalid date,
  whose time value is \<open>NaN\<close>.  A \<open>Date\<close> object is embedded as its time value, so
  \<open>new Date(d)\<close> for a date \<open>d\<close> is \<open>d\<close> itself.\<close>

definition newDate :: "int \<Rightarrow> jsnum" where
  "newDate v = TimeClip v"

fun getFullYear :: "jsnum \<Rightarrow> jsnum" where
  "getFullYear NaN = NaN"
| "getFullYear (Num t) = Num (YearFromTime t)"

fun getMonth :: "jsnum \<Rightarrow> jsnum" where
  "getMonth NaN = NaN"
| "getMonth (Num t) = Num (MonthFromTime t)"

fun setMonth :: "jsnum \<Rightarrow> jsnum \<Rightarrow> jsnum" where
  "setMonth NaN m = NaN"
| "setMonth (Num t) NaN = NaN"
| "setMonth (Num t) (Num m) =
     TimeClip (MakeDate (MakeDay (YearFromTime t) m (DateFromTime t)) (TimeWithinDay t))"

text \<open>Arithmetic and comparison on numbers that may be \<open>NaN\<close>: \<open>NaN\<close> propagates
  through \<open>+\<close>, \<open>-\<close>, \<open>*\<close> and \<open>Math.max\<close>, and every comparison with it is false.\<close>

fun nplus :: "jsnum \<Rightarrow> jsnum \<Rightarrow> jsnum" where
  "nplus (Num a) (Num b) = Num (a + b)"
| "nplus _ _ = NaN"

fun nminus :: "jsnum \<Rightarrow> jsnum \<Rightarrow> jsnum" where
  "nminus (Num a) (Num b) = Num (a - b)"
| "nminus _ _ = NaN"

fun ntimes :: "jsnum \<Rightarrow> jsnum \<Rightarrow> jsnum" where
  "ntimes (Num a) (Num b) = Num (a * b)"
| "ntimes _ _ = NaN"

fun nmax :: "jsnum \<Rightarrow> jsnum \<Rightarrow> jsnum" where
  "nmax (Num a) (Num b) = Num (max a b)"
| "nmax _ _ = NaN"

fun nless :: "jsnum \<Rightarrow> jsnum \<Rightarrow> bool" where
  "nless (Num a) (Num b) = (a < b)"
| "nless _ _ = False"

fun nle :: "jsnum \<Rightarrow> jsnum \<Rightarrow> bool" where
  "nle (Num a) (Num b) = (a \<le> b)"
| "nle _ _ = False"

text \<open>The template string \<open>`${d.getFullYear()}-${d.getMonth()}`\<close>.  The month is never
  negative, so the string determines the pair and the pair the string; the key is embedded
  as the pair.  For an invalid date it is \<open>"NaN-NaN"\<close>, the pair \<open>(NaN, NaN)\<close>.\<close>

definition monthKey :: "jsnum \<Rightarrow> jsnum \<times> jsnum" where
  "monthKey d = (getFullYear d, getMonth d)"

text \<open>\<open>Math.round(x * 100) / 100\<close>; \<open>Math.round\<close> takes a tie towards plus infinity.\<close>

definition roundCents :: "rat \<Rightarrow> rat" where
  "roundCents x = of_int \<lfloor>x * 100 + 1 / 2\<rfloor> / 100"

text \<open>JavaScript truthiness of an optional number: \<open>undefined\<close> and \<open>0\<close> are falsy.\<close>

fun truthy :: "'a::zero option \<Rightarrow> 'a option" where
  "truthy None = None"
| "truthy (Some v) = (if v = 0 then None else Some v)"

text \<open>\<open>x || d\<close> on an optional number.\<close>

definition orElse :: "'a::zero option \<Rightarrow> 'a \<Rightarrow> 'a" where
  "orElse x d = (case truthy x of None \<Rightarrow> d | Some v \<Rightarrow> v)"

section \<open>Data model\<close>

text \<open>The fields of the \<open>cars\<close>, \<open>carShares\<close> and \<open>expenses\<close> tables that the two
  handlers read; the other fields of the schema play no part in them.  An optional field is
  an \<open>option\<close>.  Documents and users are identified by numbers.\<close>

record car =
  ownerId :: nat
  purchaseDate :: "int option"
  loanAmount :: "rat option"
  loanTerm :: "int option"
  interestRate :: "rat option"
  monthlyPayment :: "rat option"
  loanBank :: "string option"

record carShare =
  share_carId :: nat
  share_userId :: nat

datatype category =
  fuel | maintenance | repair | insurance | registration | inspection
  | parking | tolls | accessories | loan_payment | other

record expense =
  expense_id :: nat
  carId :: nat
  category :: category
  amount :: rat
  date :: int
  principalAmount :: "rat option"
  interestAmount :: "rat option"

text \<open>The database; \<open>expenses\<close> and \<open>carShares\<close> are kept in creation order, the order
  in which an index scan returns documents with equal index keys.\<close>

record database =
  cars :: "nat \<Rightarrow> car option"
  carShares :: "carShare list"
  expenses :: "expense list"

record ctx =
  getAuthUserId :: "nat option"
  db :: database

datatype error = NotAuthenticated | CarNotFound | AccessDenied | NotUnique

record dueInfo =
  np_nextDueDate :: jsnum
  np_monthlyPayment :: rat
  np_amountDue :: rat
  np_paidThisPeriod :: rat
  np_remainingBalance :: rat
  np_paymentNumber :: int
  np_isOverdue :: bool

text \<open>\<open>PaidOff\<close> is the result \<open>{ isPaidOff: true }\<close>; \<open>Due\<close> is the result with
  \<open>isPaidOff: false\<close> and the other fields.\<close>

datatype nextLoanPayment = PaidOff | Due dueInfo

record paymentRow =
  row_id :: nat
  row_date :: int
  row_amount :: rat
  row_principalAmount :: rat
  row_interestAmount :: rat

record loanDetails =
  ld_originalLoanAmount :: rat
  ld_loanTerm :: int
  ld_interestRate :: rat
  ld_monthlyPayment :: rat
  ld_loanBank :: "string option"
  ld_totalPaid :: rat
  ld_totalPrincipal :: rat
  ld_totalInterest :: rat
  ld_remainingBalance :: rat
  ld_isPaidOff :: bool
  ld_monthsEarly :: jsnum
  ld_nextPaymentDate :: "jsnum option"
  ld_isOverdue :: bool
  ld_payments :: "paymentRow list"

section \<open>The handlers\<close>

text \<open>The access check shared by both handlers: the owner passes without a lookup;
  otherwise the \<open>by_car_user\<close> index is read with \<open>unique()\<close>, which raises when more
  than one document matches.\<close>

definition hasAccess :: "ctx \<Rightarrow> nat \<Rightarrow> car \<Rightarrow> nat \<Rightarrow> error + bool" where
  "hasAccess c cid cr userId =
     (if ownerId cr = userId then Inr True
      else case filter (\<lambda>s. share_carId s = cid \<and> share_userId s = userId)
                  (carShares (db c)) of
             [] \<Rightarrow> Inr False
           | [s] \<Rightarrow> Inr True
           | _ \<Rightarrow> Inl NotUnique)"

text \<open>The \<open>by_car_category\<close> query for loan payments.\<close>

definition queryLoanPayments :: "ctx \<Rightarrow> nat \<Rightarrow> expense list" where
  "queryLoanPayments c cid =
     filter (\<lambda>e. carId e = cid \<and> category e = loan_payment) (expenses (db c))"

text \<open>The divisor \<open>1000 * 60 * 60 * 24 * 30.44\<close> of both balance loops: the milliseconds
  of a month of 30.44 days.\<close>

definition monthMs :: rat where
  "monthMs = 1000 * 60 * 60 * 24 * (3044 / 100)"

text \<open>The due date of installment \<open>monthOffset\<close>, as both "first unpaid month" loops
  build it: \<open>const dueDate = new Date(purchaseDate); dueDate.setMonth(dueDate.getMonth() +
  monthOffset)\<close>.\<close>

definition installmentDueDate :: "jsnum \<Rightarrow> int \<Rightarrow> jsnum" where
  "installmentDueDate anchor monthOffset =
     setMonth anchor (nplus (getMonth anchor) (Num monthOffset))"

subsection \<open>getNextLoanPayment\<close>

text \<open>The loop "Process each payment chronologically" of \<open>getNextLoanPayment\<close>; the
  state is \<open>(currentBalance, lastPaymentDate)\<close>.\<close>

fun np_processPayments :: "rat \<Rightarrow> rat \<times> int \<Rightarrow> expense list \<Rightarrow> rat \<times> int" where
  "np_processPayments monthlyInterestRate (currentBalance, lastPaymentDate) [] =
     (currentBalance, lastPaymentDate)"
| "np_processPayments monthlyInterestRate (currentBalance, lastPaymentDate) (payment # rest) =
     (let monthsElapsed = max 0 (of_int (date payment - lastPaymentDate) / monthMs);
          interestAccrued = currentBalance * monthlyInterestRate * monthsElapsed;
          interestPortion = min (amount payment) interestAccrued;
          principalPortion = max 0 (amount payment - interestPortion)
      in np_processPayments monthlyInterestRate
           (max 0 (currentBalance - principalPortion), date payment) rest)"

text \<open>The loop "Find the first unpaid month": the due date and number of the first
  installment whose month key is not in \<open>paidMonths\<close>, or \<open>None\<close> when the loop ends
  with \<open>nextDueDate\<close> still \<open>null\<close>.\<close>

function np_findUnpaid ::
  "jsnum \<Rightarrow> (jsnum \<times> jsnum) set \<Rightarrow> int \<Rightarrow> int \<Rightarrow> (jsnum \<times> int) option" where
  "np_findUnpaid anchor paidMonths nTerm monthOffset =
     (if monthOffset \<le> nTerm
      then if monthKey (installmentDueDate anchor monthOffset) \<notin> paidMonths
           then Some (installmentDueDate anchor monthOffset, monthOffset)
           else np_findUnpaid anchor paidMonths nTerm (monthOffset + 1)
      else None)"
  by pat_completeness auto
termination
  by (relation "measure (\<lambda>(p, s, nTerm, monthOffset). nat (nTerm + 1 - monthOffset))") auto

declare np_findUnpaid.simps [simp del]

text \<open>The handler after the loan-info check, with the four required fields bound.\<close>

definition np_compute ::
  "rat \<Rightarrow> rat \<Rightarrow> int \<Rightarrow> int \<Rightarrow> rat option \<Rightarrow> expense list \<Rightarrow> int \<Rightarrow> nextLoanPayment" where
  "np_compute loanAmt monthlyPmt purchaseTs nTerm rate collected now =
     (let monthlyInterestRate = orElse rate 0 / 100 / 12;
          loanPayments = sort_key date collected;
          currentBalance =
            fst (np_processPayments monthlyInterestRate (loanAmt, purchaseTs) loanPayments);
          remainingBalance = roundCents currentBalance
      in if remainingBalance \<le> 1 / 100 then PaidOff
         else
           let paidMonths = set (map (\<lambda>payment. monthKey (newDate (date payment))) loanPayments)
           in case np_findUnpaid (newDate purchaseTs) paidMonths nTerm 1 of
                None \<Rightarrow> PaidOff
              | Some (nextDueDate, paymentNumber) \<Rightarrow>
                  let currentPeriodStart =
                        setMonth nextDueDate (nminus (getMonth nextDueDate) (Num 1));
                      paymentsThisPeriod =
                        filter (\<lambda>payment.
                                  nless currentPeriodStart (newDate (date payment)) \<and>
                                  nle (newDate (date payment)) nextDueDate) loanPayments;
                      paidThisPeriod =
                        foldl (\<lambda>sum payment. sum + amount payment) 0 paymentsThisPeriod;
                      amountDue =
                        (if remainingBalance < monthlyPmt
                         then max 0 (remainingBalance - paidThisPeriod)
                         else max 0 (monthlyPmt - paidThisPeriod))
                  in Due \<lparr> np_nextDueDate = nextDueDate,
                           np_monthlyPayment = monthlyPmt,
                           np_amountDue = roundCents amountDue,
                           np_paidThisPeriod = roundCents paidThisPeriod,
                           np_remainingBalance = remainingBalance,
                           np_paymentNumber = paymentNumber,
                           np_isOverdue = nless nextDueDate (newDate now) \<rparr>)"

text \<open>The loan-info check: \<open>null\<close> when one of the four fields is falsy.\<close>

definition np_body :: "car \<Rightarrow> expense list \<Rightarrow> int \<Rightarrow> nextLoanPayment option" where
  "np_body cr collected now =
     (case truthy (loanAmount cr) of None \<Rightarrow> None | Some loanAmt \<Rightarrow>
     (case truthy (monthlyPayment cr) of None \<Rightarrow> None | Some monthlyPmt \<Rightarrow>
     (case truthy (purchaseDate cr) of None \<Rightarrow> None | Some purchaseTs \<Rightarrow>
     (case truthy (loanTerm cr) of None \<Rightarrow> None | Some nTerm \<Rightarrow>
        Some (np_compute loanAmt monthlyPmt purchaseTs nTerm (interestRate cr)
                collected now)))))"

text \<open>The whole handler; \<open>now\<close> is the clock reading of \<open>new Date()\<close>.\<close>

definition getNextLoanPayment :: "ctx \<Rightarrow> nat \<Rightarrow> int \<Rightarrow> error + nextLoanPayment option" where
  "getNextLoanPayment c cid now =
     (case getAuthUserId c of
        None \<Rightarrow> Inl NotAuthenticated
      | Some userId \<Rightarrow>
          (case cars (db c) cid of
             None \<Rightarrow> Inl CarNotFound
           | Some cr \<Rightarrow>
               (case hasAccess c cid cr userId of
                  Inl e \<Rightarrow> Inl e
                | Inr False \<Rightarrow> Inl AccessDenied
                | Inr True \<Rightarrow> Inr (np_body cr (queryLoanPayments c cid) now))))"

subsection \<open>getLoanDetails\<close>

text \<open>The loop "Process each payment chronologically to get accurate remaining balance"
  of \<open>getLoanDetails\<close>.\<close>

fun ld_processPayments :: "rat \<Rightarrow> rat \<times> int \<Rightarrow> expense list \<Rightarrow> rat \<times> int" where
  "ld_processPayments monthlyInterestRate (currentBalance, lastPaymentDate) [] =
     (currentBalance, lastPaymentDate)"
| "ld_processPayments monthlyInterestRate (currentBalance, lastPaymentDate) (payment # rest) =
     (let monthsElapsed = max 0 (of_int (date payment - lastPaymentDate) / monthMs);
          interestAccrued = currentBalance * monthlyInterestRate * monthsElapsed;
          interestPortion = min (amount payment) interestAccrued;
          principalPortion = max 0 (amount payment - interestPortion)
      in ld_processPayments monthlyInterestRate
           (max 0 (currentBalance - principalPortion), date payment) rest)"

text \<open>The loop "Find the first unpaid month" of \<open>getLoanDetails\<close>: the pair
  \<open>(nextPaymentDate, isOverdue)\<close> it assigns, or \<open>None\<close> when it assigns nothing.\<close>

function ld_findUnpaid ::
  "jsnum \<Rightarrow> jsnum \<Rightarrow> (jsnum \<times> jsnum) set \<Rightarrow> int \<Rightarrow> int \<Rightarrow> (jsnum \<times> bool) option" where
  "ld_findUnpaid anchor currentDate paidMonths nTerm monthOffset =
     (if monthOffset \<le> nTerm
      then if monthKey (installmentDueDate anchor monthOffset) \<notin> paidMonths
           then Some (installmentDueDate anchor monthOffset,
                      nless (installmentDueDate anchor monthOffset) currentDate)
           else ld_findUnpaid anchor currentDate paidMonths nTerm (monthOffset + 1)
      else None)"
  by pat_completeness auto
termination
  by (relation "measure (\<lambda>(p, c, s, nTerm, monthOffset). nat (nTerm + 1 - monthOffset))") auto

declare ld_findUnpaid.simps [simp del]

text \<open>The value of \<open>monthsEarly\<close>.\<close>

definition ld_monthsEarly :: "bool \<Rightarrow> int option \<Rightarrow> int \<Rightarrow> expense list \<Rightarrow> int \<Rightarrow> jsnum" where
  "ld_monthsEarly isPaidOff purchase nTerm loanPayments now =
     (case (if isPaidOff then truthy purchase else None) of
        None \<Rightarrow> Num 0
      | Some purchaseTs \<Rightarrow>
          let lastPaymentDate =
                (if length loanPayments > 0 then newDate (date (last loanPayments))
                 else newDate now);
              scheduledEndDate = installmentDueDate (newDate purchaseTs) nTerm
          in if nless lastPaymentDate scheduledEndDate
             then nmax (Num 0)
                    (nplus (ntimes (nminus (getFullYear scheduledEndDate)
                                           (getFullYear lastPaymentDate)) (Num 12))
                           (nminus (getMonth scheduledEndDate) (getMonth lastPaymentDate)))
             else Num 0)"

text \<open>The handler after the loan-info check, with the three required fields bound.\<close>

definition ld_compute ::
  "car \<Rightarrow> rat \<Rightarrow> rat \<Rightarrow> int \<Rightarrow> expense list \<Rightarrow> int \<Rightarrow> loanDetails" where
  "ld_compute cr loanAmt monthlyPmt nTerm collected now =
     (let loanPayments = sort_key date collected;
          totalPaid = foldl (\<lambda>sum payment. sum + amount payment) 0 loanPayments;
          totalPrincipal =
            foldl (\<lambda>sum payment. sum + orElse (principalAmount payment) 0) 0 loanPayments;
          totalInterest =
            foldl (\<lambda>sum payment. sum + orElse (interestAmount payment) 0) 0 loanPayments;
          monthlyInterestRate = orElse (interestRate cr) 0 / 100 / 12;
          final = ld_processPayments monthlyInterestRate
                    (loanAmt, orElse (purchaseDate cr) now) loanPayments;
          currentBalance = fst final;
          lastPaymentDate = snd final;
          monthsElapsed = max 0 (of_int (now - lastPaymentDate) / monthMs);
          accruedInterestSinceLastPayment = currentBalance * monthlyInterestRate * monthsElapsed;
          remainingBalance = roundCents (currentBalance + accruedInterestSinceLastPayment);
          isPaidOff = (remainingBalance \<le> 1 / 100);
          next =
            (case (if \<not> isPaidOff then truthy (purchaseDate cr) else None) of
               None \<Rightarrow> None
             | Some purchaseTs \<Rightarrow>
                 ld_findUnpaid (newDate purchaseTs) (newDate now)
                   (set (map (\<lambda>payment. monthKey (newDate (date payment))) loanPayments))
                   nTerm 1)
      in \<lparr> ld_originalLoanAmount = loanAmt,
           ld_loanTerm = nTerm,
           ld_interestRate = orElse (interestRate cr) 0,
           ld_monthlyPayment = monthlyPmt,
           ld_loanBank = loanBank cr,
           ld_totalPaid = roundCents totalPaid,
           ld_totalPrincipal = roundCents totalPrincipal,
           ld_totalInterest = roundCents totalInterest,
           ld_remainingBalance = max 0 remainingBalance,
           ld_isPaidOff = isPaidOff,
           ld_monthsEarly = ld_monthsEarly isPaidOff (purchaseDate cr) nTerm loanPayments now,
           ld_nextPaymentDate = map_option fst next,
           ld_isOverdue = (case next of None \<Rightarrow> False | Some (d, overdue) \<Rightarrow> overdue),
           ld_payments =
             map (\<lambda>payment.
                    \<lparr> row_id = expense_id payment,
                      row_date = date payment,
                      row_amount = roundCents (amount payment),
                      row_principalAmount = roundCents (orElse (principalAmount payment) 0),
                      row_interestAmount = roundCents (orElse (interestAmount payment) 0) \<rparr>)
                 loanPayments \<rparr>)"

definition ld_body :: "car \<Rightarrow> expense list \<Rightarrow> int \<Rightarrow> loanDetails option" where
  "ld_body cr collected now =
     (case truthy (loanAmount cr) of None \<Rightarrow> None | Some loanAmt \<Rightarrow>
     (case truthy (monthlyPayment cr) of None \<Rightarrow> None | Some monthlyPmt \<Rightarrow>
     (case truthy (loanTerm cr) of None \<Rightarrow> None | Some nTerm \<Rightarrow>
        Some (ld_compute cr loanAmt monthlyPmt nTerm collected now))))"

text \<open>The whole handler; \<open>now\<close> is the clock reading of \<open>Date.now()\<close> and
  \<open>new Date()\<close>.\<close>

definition getLoanDetails :: "ctx \<Rightarrow> nat \<Rightarrow> int \<Rightarrow> error + loanDetails option" where
  "getLoanDetails c cid now =
     (case getAuthUserId c of
        None \<Rightarrow> Inl NotAuthenticated
      | Some userId \<Rightarrow>
          (case cars (db c) cid of
             None \<Rightarrow> Inl CarNotFound
           | Some cr \<Rightarrow>
               (case hasAccess c cid cr userId of
                  Inl e \<Rightarrow> Inl e
                | Inr False \<Rightarrow> Inl AccessDenied
                | Inr True \<Rightarrow> Inr (ld_body cr (queryLoanPayments c cid) now))))"

section \<open>Names for quantities of the handlers\<close>

text \<open>The balance after the loop of \<open>getNextLoanPayment\<close> (\<open>currentBalance\<close> when the
  loop ends).\<close>

definition np_balance :: "rat \<Rightarrow> int \<Rightarrow> rat option \<Rightarrow> expense list \<Rightarrow> rat" where
  "np_balance loanAmt purchaseTs rate collected =
     fst (np_processPayments (orElse rate 0 / 100 / 12) (loanAmt, purchaseTs)
            (sort_key date collected))"

text \<open>The set \<open>paidMonths\<close> that both handlers build from the payments.\<close>

definition paidMonthsOf :: "expense list \<Rightarrow> (jsnum \<times> jsnum) set" where
  "paidMonthsOf payments = (\<lambda>p. monthKey (newDate (date p))) ` set payments"

text \<open>The sum \<open>paidThisPeriod\<close> of \<open>getNextLoanPayment\<close> for a due date.\<close>

definition np_paidInPeriod :: "jsnum \<Rightarrow> expense list \<Rightarrow> rat" where
  "np_paidInPeriod nextDueDate collected =
     foldl (\<lambda>sum payment. sum + amount payment) 0
       (filter (\<lambda>payment.
                  nless (setMonth nextDueDate (nminus (getMonth nextDueDate) (Num 1)))
                        (newDate (date payment)) \<and>
                  nle (newDate (date payment)) nextDueDate)
          (sort_key date collected))"

text \<open>Installment \<open>k\<close> has a payment in its bucket: some payment's month key is the month
  key of the installment's due date.\<close>

definition bucketCovered :: "int \<Rightarrow> int \<Rightarrow> expense list \<Rightarrow> bool" where
  "bucketCovered purchaseTs k payments =
     (\<exists>p\<in>set payments.
        monthKey (newDate (date p)) = monthKey (installmentDueDate (newDate purchaseTs) k))"

text \<open>The constant \<open>remainingBalance\<close> of \<open>getLoanDetails\<close>: the balance after the loop
  plus the interest accrued from the last payment date to the current time, rounded.\<close>

definition ld_projectedBalance :: "car \<Rightarrow> rat \<Rightarrow> expense list \<Rightarrow> int \<Rightarrow> rat" where
  "ld_projectedBalance cr loanAmt collected now =
     (let monthlyInterestRate = orElse (interestRate cr) 0 / 100 / 12;
          final = ld_processPayments monthlyInterestRate
                    (loanAmt, orElse (purchaseDate cr) now) (sort_key date collected);
          currentBalance = fst final;
          lastPaymentDate = snd final;
          monthsElapsed = max 0 (of_int (now - lastPaymentDate) / monthMs);
          accruedInterestSinceLastPayment = currentBalance * monthlyInterestRate * monthsElapsed
      in roundCents (currentBalance + accruedInterestSinceLastPayment))"

text \<open>The \<open>k\<close>-th calendar month after the month of the purchase, as a month key, and
  whether some payment lies in it.\<close>

definition calendarMonthAfter :: "int \<Rightarrow> int \<Rightarrow> jsnum \<times> jsnum" where
  "calendarMonthAfter purchaseTs k =
     (Num (YearFromTime purchaseTs + (MonthFromTime purchaseTs + k) div 12),
      Num ((MonthFromTime purchaseTs + k) mod 12))"

definition calendarMonthCovered :: "int \<Rightarrow> int \<Rightarrow> expense list \<Rightarrow> bool" where
  "calendarMonthCovered purchaseTs k payments =
     (\<exists>p\<in>set payments. monthKey (newDate (date p)) = calendarMonthAfter purchaseTs k)"

text \<open>A field that is absent or holds 0: what JavaScript's \<open>!x\<close> accepts for an optional
  number.\<close>

definition missingOrZero :: "'a::zero option \<Rightarrow> bool" where
  "missingOrZero x = (x = None \<or> x = Some 0)"

section \<open>The specification's projector and amount due\<close>

text \<open>The monthly rate as the specification words it: the annual rate in percent, or 0
  when there is none, divided by 100 and by 12.\<close>

definition spec_monthlyInterestRate :: "rat option \<Rightarrow> rat" where
  "spec_monthlyInterestRate rate = (case rate of None \<Rightarrow> 0 | Some r \<Rightarrow> r) / 100 / 12"

text \<open>The loan balance projector as the specification words it (section 4.1): the six
  steps applied to each payment of a date-ordered sequence, from the opening balance and the
  anchor date.  The month is 30.44 days, in milliseconds.\<close>

definition spec_monthsElapsed :: "int \<Rightarrow> int \<Rightarrow> rat" where
  "spec_monthsElapsed paymentDate lastDate =
     max 0 (of_int (paymentDate - lastDate) / ((3044 / 100) * 86400000))"

definition spec_applyPayment :: "rat \<Rightarrow> rat \<times> int \<Rightarrow> expense \<Rightarrow> rat \<times> int" where
  "spec_applyPayment monthlyInterestRate st payment =
     (let currentBalance = fst st;
          lastDate = snd st;
          monthsElapsed = spec_monthsElapsed (date payment) lastDate;
          interestAccrued = currentBalance * monthlyInterestRate * monthsElapsed;
          interestPortion = min (amount payment) interestAccrued;
          principalPortion = max 0 (amount payment - interestPortion)
      in (max 0 (currentBalance - principalPortion), date payment))"

definition spec_projector :: "rat \<Rightarrow> rat \<Rightarrow> int \<Rightarrow> expense list \<Rightarrow> rat \<times> int" where
  "spec_projector monthlyInterestRate openingBalance anchorDate payments =
     foldl (spec_applyPayment monthlyInterestRate) (openingBalance, anchorDate) payments"

text \<open>The amount due as the specification words it (section 4.2).\<close>

definition spec_currentPeriodStart :: "jsnum \<Rightarrow> jsnum" where
  "spec_currentPeriodStart dueDate = setMonth dueDate (nminus (getMonth dueDate) (Num 1))"

definition spec_paidThisPeriod :: "jsnum \<Rightarrow> expense list \<Rightarrow> rat" where
  "spec_paidThisPeriod dueDate payments =
     sum_list (map amount
       (filter (\<lambda>p. nless (spec_currentPeriodStart dueDate) (newDate (date p)) \<and>
                     nle (newDate (date p)) dueDate) payments))"

definition spec_effectivePayment :: "rat \<Rightarrow> rat \<Rightarrow> rat" where
  "spec_effectivePayment remainingBalance monthlyPmt =
     (if remainingBalance < monthlyPmt then remainingBalance else monthlyPmt)"

definition spec_amountDue :: "rat \<Rightarrow> rat \<Rightarrow> jsnum \<Rightarrow> expense list \<Rightarrow> rat" where
  "spec_amountDue remainingBalance monthlyPmt dueDate payments =
     roundCents (max 0 (spec_effectivePayment remainingBalance monthlyPmt
                        - spec_paidThisPeriod dueDate payments))"

section \<open>Example records\<close>

text \<open>A loan-payment expense with the given id, car, amount and date.\<close>

definition loanPaymentOf :: "nat \<Rightarrow> nat \<Rightarrow> rat \<Rightarrow> int \<Rightarrow> expense" where
  "loanPaymentOf i cid a d =
     \<lparr> expense_id = i, carId = cid, category = loan_payment, amount = a, date = d,
       principalAmount = None, interestAmount = None \<rparr>"

text \<open>A car owned by user 1 with the given purchase date, loan amount, term, interest rate
  and monthly payment.\<close>

definition exampleCar ::
  "int option \<Rightarrow> rat option \<Rightarrow> int option \<Rightarrow> rat option \<Rightarrow> rat option \<Rightarrow> car" where
  "exampleCar purchase loanAmt nTerm rate monthlyPmt =
     \<lparr> ownerId = 1, purchaseDate = purchase, loanAmount = loanAmt, loanTerm = nTerm,
       interestRate = rate, monthlyPayment = monthlyPmt, loanBank = None \<rparr>"

text \<open>A request by user 1 against a database that holds the car under id 7 and the given
  expenses.\<close>

definition exampleCtx :: "car \<Rightarrow> expense list \<Rightarrow> ctx" where
  "exampleCtx cr es =
     \<lparr> getAuthUserId = Some 1,
       db = \<lparr> cars = (\<lambda>i. if i = 7 then Some cr else None), carShares = [],
              expenses = es \<rparr> \<rparr>"

section \<open>The year of a day\<close>

text \<open>\<open>yearFromDay\<close> meets the definition of ECMA-262: a year starts on or before day
  \<open>d\<close> exactly when it is at most \<open>yearFromDay d\<close>.\<close>

lemma div_bounds:
  fixes a :: int
  assumes "0 < k" and "q = a div k"
  shows "k * q \<le> a" and "a < k * q + k"
proof -
  have "a = k * (a div k) + a mod k" by simp
  moreover have "0 \<le> a mod k" "a mod k < k" using assms(1) by simp_all
  ultimately show "k * q \<le> a" and "a < k * q + k"
    unfolding assms(2) by linarith+
qed

lemma DayFromYear_bounds:
  "400 * DayFromYear y \<le> 146097 * (y - 1970) + 1093"
  "146097 * (y - 1970) - 907 \<le> 400 * DayFromYear y"
proof -
  define q4 where "q4 = (y - 1969) div 4"
  define q100 where "q100 = (y - 1901) div 100"
  define q400 where "q400 = (y - 1601) div 400"
  have d: "DayFromYear y = 365 * (y - 1970) + q4 - q100 + q400"
    unfolding DayFromYear_def q4_def q100_def q400_def ..
  have b4: "4 * q4 \<le> y - 1969" "y - 1969 < 4 * q4 + 4"
    using div_bounds [OF _ q4_def] by simp_all
  have b100: "100 * q100 \<le> y - 1901" "y - 1901 < 100 * q100 + 100"
    using div_bounds [OF _ q100_def] by simp_all
  have b400: "400 * q400 \<le> y - 1601" "y - 1601 < 400 * q400 + 400"
    using div_bounds [OF _ q400_def] by simp_all
  show "400 * DayFromYear y \<le> 146097 * (y - 1970) + 1093"
    unfolding d using b4 b100 b400 by (simp add: algebra_simps)
  show "146097 * (y - 1970) - 907 \<le> 400 * DayFromYear y"
    unfolding d using b4 b100 b400 by (simp add: algebra_simps)
qed

lemma DayFromYear_strict_mono:
  assumes "y < z"
  shows "DayFromYear y < DayFromYear z"
proof -
  define a4 where "a4 = (y - 1969) div 4"
  define a100 where "a100 = (y - 1901) div 100"
  define a400 where "a400 = (y - 1601) div 400"
  define b4 where "b4 = (z - 1969) div 4"
  define b100 where "b100 = (z - 1901) div 100"
  define b400 where "b400 = (z - 1601) div 400"
  have dy: "DayFromYear y = 365 * (y - 1970) + a4 - a100 + a400"
    unfolding DayFromYear_def a4_def a100_def a400_def ..
  have dz: "DayFromYear z = 365 * (z - 1970) + b4 - b100 + b400"
    unfolding DayFromYear_def b4_def b100_def b400_def ..
  have m4: "a4 \<le> b4" and m400: "a400 \<le> b400"
    unfolding a4_def b4_def a400_def b400_def using assms by (simp_all add: zdiv_mono1)
  have "b100 \<le> ((y - 1901) + 100 * (z - y)) div 100"
    unfolding b100_def using assms by (intro zdiv_mono1) simp_all
  also have "\<dots> = a100 + (z - y)"
    unfolding a100_def by simp
  finally have m100: "b100 \<le> a100 + (z - y)" .
  show ?thesis
    unfolding dy dz using m4 m400 m100 assms by (simp add: algebra_simps)
qed

lemma yearFromDay_bounds:
  "DayFromYear (yearFromDay d) \<le> d" "d < DayFromYear (yearFromDay d + 1)"
proof -
  define e where "e = (d * 400) div 146097"
  define y0 where "y0 = 1970 + e"
  have e: "146097 * e \<le> d * 400" "d * 400 < 146097 * e + 146097"
    using div_bounds [OF _ e_def] by simp_all
  have r: "yearFromDay d =
             (if d < DayFromYear y0 then y0 - 1
              else if DayFromYear (y0 + 1) \<le> d then y0 + 1 else y0)"
    unfolding yearFromDay_def Let_def y0_def e_def ..
  have lo: "400 * DayFromYear (y0 - 1) \<le> 146097 * (y0 - 1 - 1970) + 1093"
    by (rule DayFromYear_bounds)
  have hi: "146097 * (y0 + 1 + 1 - 1970) - 907 \<le> 400 * DayFromYear (y0 + 1 + 1)"
    by (rule DayFromYear_bounds)
  have lo': "DayFromYear (y0 - 1) \<le> d"
    using lo e unfolding y0_def by (simp add: algebra_simps)
  have hi': "d < DayFromYear (y0 + 1 + 1)"
    using hi e unfolding y0_def by (simp add: algebra_simps)
  show "DayFromYear (yearFromDay d) \<le> d"
    unfolding r using lo' by simp
  show "d < DayFromYear (yearFromDay d + 1)"
    unfolding r using hi' by simp
qed

lemma yearFromDay_largest:
  "DayFromYear y \<le> d \<longleftrightarrow> y \<le> yearFromDay d"
proof
  assume "DayFromYear y \<le> d"
  then have "DayFromYear y < DayFromYear (yearFromDay d + 1)"
    using yearFromDay_bounds(2) [of d] by simp
  then have "\<not> yearFromDay d + 1 \<le> y"
    using DayFromYear_strict_mono [of "yearFromDay d + 1" y] by (cases "yearFromDay d + 1 = y") auto
  then show "y \<le> yearFromDay d" by simp
next
  assume "y \<le> yearFromDay d"
  then have "DayFromYear y \<le> DayFromYear (yearFromDay d)"
    using DayFromYear_strict_mono [of y "yearFromDay d"] by (cases "y = yearFromDay d") auto
  then show "DayFromYear y \<le> d"
    using yearFromDay_bounds(1) [of d] by simp
qed

section \<open>Calendar dates\<close>

lemma div_succ:
  fixes a k :: int
  assumes "0 < k"
  shows "(a + 1) div k = a div k + (if (a + 1) mod k = 0 then 1 else 0)"
proof -
  define q where "q = a div k"
  define r where "r = a mod k"
  have a: "a = k * q + r" and r: "0 \<le> r" "r < k"
    using assms by (simp_all add: q_def r_def)
  show ?thesis
  proof (cases "r + 1 = k")
    case True
    have e: "a + 1 = k * (q + 1) + 0"
      using a True by (simp add: algebra_simps)
    have "(a + 1) div k = q + 1"
      using e _ assms by (rule int_div_pos_eq) simp
    moreover have "(a + 1) mod k = 0"
      using e _ assms by (rule int_mod_pos_eq) simp
    ultimately show ?thesis
      by (simp add: q_def)
  next
    case False
    have e: "a + 1 = k * q + (r + 1)"
      using a by simp
    have r1: "0 \<le> r + 1" "r + 1 < k"
      using r False by simp_all
    have "(a + 1) div k = q"
      using e r1 by (rule int_div_pos_eq)
    moreover have "(a + 1) mod k = r + 1"
      using e r1 by (rule int_mod_pos_eq)
    ultimately show ?thesis
      using r by (simp add: q_def)
  qed
qed

lemma DaysInYear_diff: "DayFromYear (y + 1) - DayFromYear y = DaysInYear y"
proof -
  have m4: "(y - 1969 + 1) mod 4 = y mod 4"
    using mod_mult_self1 [of y "- 492" 4] by simp
  have m100: "(y - 1901 + 1) mod 100 = y mod 100"
    using mod_mult_self1 [of y "- 19" 100] by simp
  have m400: "(y - 1601 + 1) mod 400 = y mod 400"
    using mod_mult_self1 [of y "- 4" 400] by simp
  have q4: "(y + 1 - 1969) div 4 = (y - 1969) div 4 + (if y mod 4 = 0 then 1 else 0)"
    using div_succ [of 4 "y - 1969"] unfolding m4 by (simp add: algebra_simps)
  have q100: "(y + 1 - 1901) div 100 = (y - 1901) div 100 + (if y mod 100 = 0 then 1 else 0)"
    using div_succ [of 100 "y - 1901"] unfolding m100 by (simp add: algebra_simps)
  have q400: "(y + 1 - 1601) div 400 = (y - 1601) div 400 + (if y mod 400 = 0 then 1 else 0)"
    using div_succ [of 400 "y - 1601"] unfolding m400 by (simp add: algebra_simps)
  have i1: "y mod 4 = 0" if "y mod 100 = 0"
  proof -
    have "(100::int) dvd y" using that by (simp add: mod_eq_0_iff_dvd)
    moreover have "(4::int) dvd 100" by simp
    ultimately have "(4::int) dvd y" by (metis dvd_trans)
    then show ?thesis by (simp add: mod_eq_0_iff_dvd)
  qed
  have i2: "y mod 100 = 0" if "y mod 400 = 0"
  proof -
    have "(400::int) dvd y" using that by (simp add: mod_eq_0_iff_dvd)
    moreover have "(100::int) dvd 400" by simp
    ultimately have "(100::int) dvd y" by (metis dvd_trans)
    then show ?thesis by (simp add: mod_eq_0_iff_dvd)
  qed
  show ?thesis
    unfolding DayFromYear_def DaysInYear_def q4 q100 q400
    using i1 i2 by (auto simp: algebra_simps)
qed

lemma yearFromDay_unique:
  assumes "DayFromYear y \<le> d" and "d < DayFromYear (y + 1)"
  shows "yearFromDay d = y"
proof -
  have "y \<le> yearFromDay d"
    using assms(1) by (simp only: yearFromDay_largest)
  moreover have "\<not> y + 1 \<le> yearFromDay d"
    using assms(2) yearFromDay_largest [of "y + 1" d] by simp
  ultimately show ?thesis by simp
qed

lemma Day_MakeDate:
  assumes "0 \<le> tw" and "tw < msPerDay"
  shows "Day (MakeDate day tw) = day" and "TimeWithinDay (MakeDate day tw) = tw"
  using assms unfolding Day_def MakeDate_def TimeWithinDay_def msPerDay_def
  by (simp_all add: div_pos_pos_trivial)

lemma DayWithinYear_bounds:
  "0 \<le> DayWithinYear t" "DayWithinYear t < DaysInYear (YearFromTime t)"
  unfolding DayWithinYear_def YearFromTime_def
  using yearFromDay_bounds [of "Day t"] DaysInYear_diff [of "yearFromDay (Day t)"]
  by simp_all

lemma DaysInYear_cases: "DaysInYear y = 365 \<or> DaysInYear y = 366"
  unfolding DaysInYear_def by simp

lemma DateFromTime_pos: "1 \<le> DateFromTime t"
  using DayWithinYear_bounds [of t] DaysInYear_cases [of "YearFromTime t"]
  unfolding DateFromTime_def MonthFromTime_def InLeapYear_def Let_def
  by (auto split: if_splits)

text \<open>A day of the month up to 28 exists in every month: the date built from year \<open>ym\<close>,
  month \<open>mn\<close> and such a day reads back as given.\<close>

lemma civil_of_monthStartDay:
  assumes "0 \<le> mn" "mn \<le> 11" "1 \<le> dt" "dt \<le> 28" "0 \<le> tw" "tw < msPerDay"
  shows "YearFromTime (MakeDate (monthStartDay ym mn + dt - 1) tw) = ym"
    and "MonthFromTime (MakeDate (monthStartDay ym mn + dt - 1) tw) = mn"
proof -
  let ?t = "MakeDate (monthStartDay ym mn + dt - 1) tw"
  have day: "Day ?t = monthStartDay ym mn + dt - 1"
    using assms(5,6) by (rule Day_MakeDate)
  have mn: "mn = 0 \<or> mn = 1 \<or> mn = 2 \<or> mn = 3 \<or> mn = 4 \<or> mn = 5 \<or> mn = 6 \<or> mn = 7
            \<or> mn = 8 \<or> mn = 9 \<or> mn = 10 \<or> mn = 11"
    using assms(1,2) by arith
  have lo: "DayFromYear ym \<le> monthStartDay ym mn + dt - 1"
    using mn assms(3) unfolding monthStartDay_def Let_def by auto
  have hi: "monthStartDay ym mn + dt - 1 < DayFromYear (ym + 1)"
    using mn assms(4) DaysInYear_diff [of ym] DaysInYear_cases [of ym]
    unfolding monthStartDay_def Let_def by auto
  show y: "YearFromTime ?t = ym"
    unfolding YearFromTime_def day using lo hi by (rule yearFromDay_unique)
  have dwy: "DayWithinYear ?t = monthStartDay ym mn + dt - 1 - DayFromYear ym"
    unfolding DayWithinYear_def y day ..
  show "MonthFromTime ?t = mn"
    unfolding MonthFromTime_def InLeapYear_def dwy y
    using mn assms(3,4) DaysInYear_cases [of ym]
    unfolding monthStartDay_def Let_def by auto
qed

lemma TimeWithinDay_bounds: "0 \<le> TimeWithinDay t" "TimeWithinDay t < msPerDay"
  unfolding TimeWithinDay_def msPerDay_def by simp_all

lemma installmentDueDate_month:
  assumes "\<bar>purchaseTs\<bar> \<le> 8640000000000000"
      and "DateFromTime purchaseTs \<le> 28"
      and "installmentDueDate (newDate purchaseTs) k \<noteq> NaN"
  shows "monthKey (installmentDueDate (newDate purchaseTs) k) = calendarMonthAfter purchaseTs k"
proof -
  let ?Y = "YearFromTime purchaseTs" and ?M = "MonthFromTime purchaseTs"
  let ?t = "MakeDate (monthStartDay (?Y + (?M + k) div 12) ((?M + k) mod 12)
                        + DateFromTime purchaseTs - 1) (TimeWithinDay purchaseTs)"
  have nd: "newDate purchaseTs = Num purchaseTs"
    using assms(1) by (simp add: newDate_def TimeClip_def)
  have due: "installmentDueDate (newDate purchaseTs) k = TimeClip ?t"
    unfolding installmentDueDate_def nd by (simp add: MakeDay_def)
  with assms(3) have num: "installmentDueDate (newDate purchaseTs) k = Num ?t"
    by (simp add: TimeClip_def split: if_splits)
  have m: "0 \<le> (?M + k) mod 12" "(?M + k) mod 12 \<le> 11"
    by simp_all
  have civil: "YearFromTime ?t = ?Y + (?M + k) div 12" "MonthFromTime ?t = (?M + k) mod 12"
    using m DateFromTime_pos [of purchaseTs] assms(2) TimeWithinDay_bounds [of purchaseTs]
    by (rule civil_of_monthStartDay)+
  show ?thesis
    unfolding num monthKey_def calendarMonthAfter_def by (simp add: civil)
qed

section \<open>The balance loops\<close>

lemma ld_processPayments_eq_np: "ld_processPayments r s ps = np_processPayments r s ps"
  by (induction r s ps rule: np_processPayments.induct) (simp_all add: Let_def)

lemma monthMs_spec: "monthMs = (3044 / 100) * 86400000"
  by (simp add: monthMs_def)

lemma np_processPayments_step:
  "np_processPayments r s (p # ps) = np_processPayments r (spec_applyPayment r s p) ps"
  by (cases s) (simp add: spec_applyPayment_def spec_monthsElapsed_def monthMs_spec Let_def)

lemma np_processPayments_eq_spec:
  "np_processPayments r (b, l) ps = spec_projector r b l ps"
  unfolding spec_projector_def
proof (induction ps arbitrary: b l)
  case Nil
  show ?case by simp
next
  case (Cons p ps)
  obtain b' l' where s: "spec_applyPayment r (b, l) p = (b', l')"
    by (cases "spec_applyPayment r (b, l) p")
  show ?case
    using Cons.IH [of b' l'] by (simp only: np_processPayments_step s foldl_Cons)
qed

lemma spec_projector_snoc:
  "spec_projector r b l (ps @ [p]) = spec_applyPayment r (spec_projector r b l ps) p"
  by (simp add: spec_projector_def)

lemma spec_applyPayment_bounds:
  assumes "0 \<le> fst s"
  shows "0 \<le> fst (spec_applyPayment r s p)" and "fst (spec_applyPayment r s p) \<le> fst s"
  using assms by (simp_all add: spec_applyPayment_def Let_def)

lemma spec_projector_nonneg: "0 \<le> b \<Longrightarrow> 0 \<le> fst (spec_projector r b l ps)"
proof (induction ps rule: rev_induct)
  case Nil
  then show ?case by (simp add: spec_projector_def)
next
  case (snoc p ps)
  then show ?case
    by (simp only: spec_projector_snoc spec_applyPayment_bounds)
qed

lemma spec_projector_take_Suc:
  assumes "n < length ps"
  shows "spec_projector r b l (take (Suc n) ps)
           = spec_applyPayment r (spec_projector r b l (take n ps)) (ps ! n)"
  using assms by (simp add: take_Suc_conv_app_nth spec_projector_snoc)

text \<open>
  C3.  Starting from an opening balance that is not negative, each payment that either
  handler's loop applies, in the date order of the sorted list, leaves a balance that is not
  negative and not above the balance before that payment.
\<close>

theorem balance_never_negative_never_increases:
  assumes "0 \<le> openingBalance" and "n < length collected"
  shows "0 \<le> fst (np_processPayments r (openingBalance, anchor)
                    (take (Suc n) (sort_key date collected)))
       \<and> fst (np_processPayments r (openingBalance, anchor)
                (take (Suc n) (sort_key date collected)))
           \<le> fst (np_processPayments r (openingBalance, anchor)
                    (take n (sort_key date collected)))
       \<and> 0 \<le> fst (ld_processPayments r (openingBalance, anchor)
                    (take (Suc n) (sort_key date collected)))
       \<and> fst (ld_processPayments r (openingBalance, anchor)
                (take (Suc n) (sort_key date collected)))
           \<le> fst (ld_processPayments r (openingBalance, anchor)
                    (take n (sort_key date collected)))"
proof -
  let ?ps = "sort_key date collected"
  let ?before = "spec_projector r openingBalance anchor (take n ?ps)"
  have n: "n < length ?ps" using assms(2) by simp
  have before: "0 \<le> fst ?before"
    using assms(1) by (rule spec_projector_nonneg)
  have step: "spec_projector r openingBalance anchor (take (Suc n) ?ps)
                = spec_applyPayment r ?before (?ps ! n)"
    using n by (rule spec_projector_take_Suc)
  have "0 \<le> fst (spec_applyPayment r ?before (?ps ! n))"
    and "fst (spec_applyPayment r ?before (?ps ! n)) \<le> fst ?before"
    using before by (rule spec_applyPayment_bounds)+
  then show ?thesis
    by (simp only: ld_processPayments_eq_np np_processPayments_eq_spec step simp_thms)
qed

theorem balance_never_negative_never_increases_witness:
  "(0::rat) \<le> 20000 \<and> (0::nat) < length [loanPaymentOf 1 7 400 2678400000]
   \<and> fst (np_processPayments (1 / 200) (20000, 0)
            (take (Suc 0) (sort_key date [loanPaymentOf 1 7 400 2678400000]))) = 14993100 / 761
   \<and> fst (np_processPayments (1 / 200) (20000, 0)
            (take 0 (sort_key date [loanPaymentOf 1 7 400 2678400000]))) = 20000"
  using balance_never_negative_never_increases
          [of 20000 0 "[loanPaymentOf 1 7 400 2678400000]" "1 / 200" 0]
  by (simp add: loanPaymentOf_def monthMs_def)

section \<open>The search for the first unpaid month\<close>

lemma np_findUnpaid_None:
  "np_findUnpaid a S t k = None
     \<longleftrightarrow> (\<forall>j. k \<le> j \<and> j \<le> t \<longrightarrow> monthKey (installmentDueDate a j) \<in> S)"
proof (induction a S t k rule: np_findUnpaid.induct)
  case (1 a S t k)
  show ?case
  proof (cases "k \<le> t")
    case False
    then show ?thesis by (subst np_findUnpaid.simps) auto
  next
    case le: True
    show ?thesis
    proof (cases "monthKey (installmentDueDate a k) \<in> S")
      case False
      with le show ?thesis by (subst np_findUnpaid.simps) auto
    next
      case True
      have split: "\<And>j. k \<le> j \<longleftrightarrow> j = k \<or> k + 1 \<le> j" by arith
      have "np_findUnpaid a S t k = np_findUnpaid a S t (k + 1)"
        using le True by (subst np_findUnpaid.simps) simp
      also have "\<dots> = None
          \<longleftrightarrow> (\<forall>j. k + 1 \<le> j \<and> j \<le> t \<longrightarrow> monthKey (installmentDueDate a j) \<in> S)"
        using "1.IH" le True by simp
      finally show ?thesis using True by (auto simp: split)
    qed
  qed
qed

lemma np_findUnpaid_Some:
  "np_findUnpaid a S t k = Some (d, n)
     \<longleftrightarrow> k \<le> n \<and> n \<le> t \<and> d = installmentDueDate a n \<and> monthKey d \<notin> S
         \<and> (\<forall>j. k \<le> j \<and> j < n \<longrightarrow> monthKey (installmentDueDate a j) \<in> S)"
proof (induction a S t k rule: np_findUnpaid.induct)
  case (1 a S t k)
  show ?case
  proof (cases "k \<le> t")
    case False
    then show ?thesis by (subst np_findUnpaid.simps) auto
  next
    case le: True
    show ?thesis
    proof (cases "monthKey (installmentDueDate a k) \<in> S")
      case False
      have "np_findUnpaid a S t k = Some (installmentDueDate a k, k)"
        using le False by (subst np_findUnpaid.simps) simp
      moreover have "n = k" if "k \<le> n"
        "\<forall>j. k \<le> j \<and> j < n \<longrightarrow> monthKey (installmentDueDate a j) \<in> S"
        using that False by (metis order_le_less)
      ultimately show ?thesis using le False by auto
    next
      case True
      have split: "\<And>j. k \<le> j \<longleftrightarrow> j = k \<or> k + 1 \<le> j" by arith
      have "np_findUnpaid a S t k = np_findUnpaid a S t (k + 1)"
        using le True by (subst np_findUnpaid.simps) simp
      also have "\<dots> = Some (d, n)
          \<longleftrightarrow> k + 1 \<le> n \<and> n \<le> t \<and> d = installmentDueDate a n \<and> monthKey d \<notin> S
         \<and> (\<forall>j. k + 1 \<le> j \<and> j < n \<longrightarrow> monthKey (installmentDueDate a j) \<in> S)"
        using "1.IH" le True by simp
      finally show ?thesis using True by (auto simp: split)
    qed
  qed
qed

lemma ld_findUnpaid_eq_np:
  "ld_findUnpaid a c S t k = map_option (\<lambda>(d, n). (d, nless d c)) (np_findUnpaid a S t k)"
proof (induction a S t k rule: np_findUnpaid.induct)
  case (1 a S t k)
  show ?case
    using 1 by (subst ld_findUnpaid.simps, subst np_findUnpaid.simps) simp
qed

section \<open>The handlers unfolded\<close>

lemma truthy_Some: "truthy x = Some v \<longleftrightarrow> x = Some v \<and> v \<noteq> 0"
  by (cases x) auto

lemma truthy_None: "truthy x = None \<longleftrightarrow> x = None \<or> x = Some 0"
  by (cases x) auto

lemma np_body_Some:
  "np_body cr collected now = Some res \<longleftrightarrow>
     (\<exists>la mp pd lt. truthy (loanAmount cr) = Some la \<and> truthy (monthlyPayment cr) = Some mp
        \<and> truthy (purchaseDate cr) = Some pd \<and> truthy (loanTerm cr) = Some lt
        \<and> res = np_compute la mp pd lt (interestRate cr) collected now)"
  by (auto simp: np_body_def split: option.splits)

lemma paidMonths_sorted:
  "set (map (\<lambda>payment. monthKey (newDate (date payment))) (sort_key date collected))
     = paidMonthsOf collected"
  by (simp add: paidMonthsOf_def)

lemma np_compute_PaidOff:
  "np_compute la mp pd lt rate collected now = PaidOff \<longleftrightarrow>
     roundCents (np_balance la pd rate collected) \<le> 1 / 100
     \<or> np_findUnpaid (newDate pd) (paidMonthsOf collected) lt 1 = None"
proof (cases "np_findUnpaid (newDate pd) (paidMonthsOf collected) lt 1")
  case None
  then show ?thesis
    unfolding np_compute_def Let_def paidMonths_sorted np_balance_def by simp
next
  case (Some a)
  obtain due n where "a = (due, n)" by (cases a)
  with Some show ?thesis
    unfolding np_compute_def Let_def paidMonths_sorted np_balance_def by simp
qed

lemma np_compute_Some:
  assumes "\<not> roundCents (np_balance la pd rate collected) \<le> 1 / 100"
      and "np_findUnpaid (newDate pd) (paidMonthsOf collected) lt 1 = Some (due, n)"
  shows "np_compute la mp pd lt rate collected now =
     Due \<lparr> np_nextDueDate = due,
           np_monthlyPayment = mp,
           np_amountDue = roundCents
             (if roundCents (np_balance la pd rate collected) < mp
              then max 0 (roundCents (np_balance la pd rate collected)
                          - np_paidInPeriod due collected)
              else max 0 (mp - np_paidInPeriod due collected)),
           np_paidThisPeriod = roundCents (np_paidInPeriod due collected),
           np_remainingBalance = roundCents (np_balance la pd rate collected),
           np_paymentNumber = n,
           np_isOverdue = nless due (newDate now) \<rparr>"
  using assms
  unfolding np_compute_def Let_def paidMonths_sorted np_balance_def np_paidInPeriod_def
  by simp

lemma np_compute_Due:
  assumes "np_compute la mp pd lt rate collected now = Due d"
  shows "\<not> roundCents (np_balance la pd rate collected) \<le> 1 / 100"
    and "np_findUnpaid (newDate pd) (paidMonthsOf collected) lt 1
           = Some (np_nextDueDate d, np_paymentNumber d)"
    and "np_remainingBalance d = roundCents (np_balance la pd rate collected)"
    and "np_monthlyPayment d = mp"
    and "np_amountDue d = roundCents
             (if np_remainingBalance d < mp
              then max 0 (np_remainingBalance d
                          - np_paidInPeriod (np_nextDueDate d) collected)
              else max 0 (mp - np_paidInPeriod (np_nextDueDate d) collected))"
proof -
  show nb: "\<not> roundCents (np_balance la pd rate collected) \<le> 1 / 100"
    using assms np_compute_PaidOff [of la mp pd lt rate collected now] by auto
  have "np_findUnpaid (newDate pd) (paidMonthsOf collected) lt 1 \<noteq> None"
    using assms np_compute_PaidOff [of la mp pd lt rate collected now] by auto
  then obtain due n where
    f: "np_findUnpaid (newDate pd) (paidMonthsOf collected) lt 1 = Some (due, n)"
    by auto
  note eq = np_compute_Some [OF nb f, of mp now]
  have d: "d = \<lparr> np_nextDueDate = due,
           np_monthlyPayment = mp,
           np_amountDue = roundCents
             (if roundCents (np_balance la pd rate collected) < mp
              then max 0 (roundCents (np_balance la pd rate collected)
                          - np_paidInPeriod due collected)
              else max 0 (mp - np_paidInPeriod due collected)),
           np_paidThisPeriod = roundCents (np_paidInPeriod due collected),
           np_remainingBalance = roundCents (np_balance la pd rate collected),
           np_paymentNumber = n,
           np_isOverdue = nless due (newDate now) \<rparr>"
    using assms unfolding eq by simp
  show "np_findUnpaid (newDate pd) (paidMonthsOf collected) lt 1
           = Some (np_nextDueDate d, np_paymentNumber d)"
    unfolding d f by simp
  show "np_remainingBalance d = roundCents (np_balance la pd rate collected)"
    unfolding d by simp
  show "np_monthlyPayment d = mp"
    unfolding d by simp
  show "np_amountDue d = roundCents
             (if np_remainingBalance d < mp
              then max 0 (np_remainingBalance d
                          - np_paidInPeriod (np_nextDueDate d) collected)
              else max 0 (mp - np_paidInPeriod (np_nextDueDate d) collected))"
    unfolding d by simp
qed

lemma getNextLoanPayment_Inr:
  "getNextLoanPayment c cid now = Inr r \<longleftrightarrow>
     (\<exists>u cr. getAuthUserId c = Some u \<and> cars (db c) cid = Some cr
        \<and> hasAccess c cid cr u = Inr True
        \<and> r = np_body cr (queryLoanPayments c cid) now)"
  by (auto simp: getNextLoanPayment_def split: option.splits sum.splits bool.splits)

lemma getLoanDetails_Inr:
  "getLoanDetails c cid now = Inr r \<longleftrightarrow>
     (\<exists>u cr. getAuthUserId c = Some u \<and> cars (db c) cid = Some cr
        \<and> hasAccess c cid cr u = Inr True
        \<and> r = ld_body cr (queryLoanPayments c cid) now)"
  by (auto simp: getLoanDetails_def split: option.splits sum.splits bool.splits)


lemma example_access:
  "getNextLoanPayment (exampleCtx (exampleCar p a t r m) es) 7 now
     = Inr (np_body (exampleCar p a t r m) (queryLoanPayments (exampleCtx (exampleCar p a t r m) es) 7) now)"
  by (simp add: getNextLoanPayment_def exampleCtx_def exampleCar_def hasAccess_def)

lemma example_query:
  "queryLoanPayments (exampleCtx cr [loanPaymentOf 1 7 a1 d1, loanPaymentOf 2 7 a2 d2]) 7
     = [loanPaymentOf 1 7 a1 d1, loanPaymentOf 2 7 a2 d2]"
  by (simp add: queryLoanPayments_def exampleCtx_def loanPaymentOf_def)


lemma handlers_granted:
  assumes "getAuthUserId c = Some u" and "cars (db c) cid = Some cr"
      and "hasAccess c cid cr u = Inr True"
  shows "getNextLoanPayment c cid now = Inr (np_body cr (queryLoanPayments c cid) now)"
    and "getLoanDetails c cid now = Inr (ld_body cr (queryLoanPayments c cid) now)"
  using assms by (simp_all add: getNextLoanPayment_def getLoanDetails_def)

lemma np_body_present:
  assumes "loanAmount cr = Some la" "la \<noteq> 0" "monthlyPayment cr = Some mp" "mp \<noteq> 0"
      and "purchaseDate cr = Some pd" "pd \<noteq> 0" "loanTerm cr = Some lt" "lt \<noteq> 0"
  shows "np_body cr collected now
           = Some (np_compute la mp pd lt (interestRate cr) collected now)"
  using assms by (simp add: np_body_def)


section \<open>Month buckets\<close>

lemma bucketCovered_paidMonthsOf:
  "bucketCovered purchaseTs k payments
     \<longleftrightarrow> monthKey (installmentDueDate (newDate purchaseTs) k) \<in> paidMonthsOf payments"
  unfolding bucketCovered_def paidMonthsOf_def by (metis (no_types, lifting) image_iff)

lemma getNextLoanPayment_Some:
  assumes "getNextLoanPayment c cid now = Inr (Some res)"
      and "cars (db c) cid = Some cr"
  obtains la mp pd lt where
    "loanAmount cr = Some la" "la \<noteq> 0" "monthlyPayment cr = Some mp" "mp \<noteq> 0"
    "purchaseDate cr = Some pd" "pd \<noteq> 0" "loanTerm cr = Some lt" "lt \<noteq> 0"
    "res = np_compute la mp pd lt (interestRate cr) (queryLoanPayments c cid) now"
proof -
  from assms have "np_body cr (queryLoanPayments c cid) now = Some res"
    by (auto simp: getNextLoanPayment_Inr)
  then obtain la mp pd lt where
    "truthy (loanAmount cr) = Some la" "truthy (monthlyPayment cr) = Some mp"
    "truthy (purchaseDate cr) = Some pd" "truthy (loanTerm cr) = Some lt"
    "res = np_compute la mp pd lt (interestRate cr) (queryLoanPayments c cid) now"
    unfolding np_body_Some by blast
  then show ?thesis
    using that [of la mp pd lt] by (simp only: truthy_Some) blast
qed

text \<open>
  C4.  When a call of \<open>getNextLoanPayment\<close> returns a result for a car with loan term
  \<open>nTerm\<close>, and every installment from 1 to \<open>nTerm\<close> has a recorded payment whose month
  key equals the month key of the installment's due date, the result is
  \<open>{ isPaidOff: true }\<close>, whatever the projected balance is.  The witness has a projected
  balance far above one cent.
\<close>

theorem all_buckets_covered_paid_off:
  assumes "getNextLoanPayment c cid now = Inr (Some res)"
      and "cars (db c) cid = Some cr"
      and "loanTerm cr = Some nTerm"
      and "purchaseDate cr = Some purchaseTs"
      and "\<forall>k\<in>{1..nTerm}. bucketCovered purchaseTs k (queryLoanPayments c cid)"
  shows "getNextLoanPayment c cid now = Inr (Some PaidOff)"
proof -
  let ?ps = "queryLoanPayments c cid"
  from assms(1,2) obtain la mp pd lt where
    f: "purchaseDate cr = Some pd" "loanTerm cr = Some lt"
    and res: "res = np_compute la mp pd lt (interestRate cr) ?ps now"
    by (rule getNextLoanPayment_Some)
  from f assms(3,4) have eq: "pd = purchaseTs" "lt = nTerm"
    by simp_all
  have "\<forall>j. 1 \<le> j \<and> j \<le> nTerm \<longrightarrow>
          monthKey (installmentDueDate (newDate purchaseTs) j) \<in> paidMonthsOf ?ps"
    using assms(5) by (simp add: bucketCovered_paidMonthsOf)
  then have "np_findUnpaid (newDate purchaseTs) (paidMonthsOf ?ps) nTerm 1 = None"
    by (simp only: np_findUnpaid_None)
  then have "res = PaidOff"
    unfolding res eq by (simp only: np_compute_PaidOff simp_thms)
  with assms(1) show ?thesis by simp
qed

theorem all_buckets_covered_paid_off_witness:
  "getNextLoanPayment
     (exampleCtx (exampleCar (Some 1673784000000) (Some 20000) (Some 2) (Some 6) (Some 400))
        [loanPaymentOf 1 7 400 1676030400000, loanPaymentOf 2 7 400 1679313600000])
     7 1680350400000 = Inr (Some PaidOff)
   \<and> 1 / 100 < roundCents (np_balance 20000 1673784000000 (Some 6)
        [loanPaymentOf 1 7 400 1676030400000, loanPaymentOf 2 7 400 1679313600000])"
proof -
  let ?cr = "exampleCar (Some 1673784000000) (Some 20000) (Some 2) (Some 6) (Some 400)"
  let ?ps = "[loanPaymentOf 1 7 400 1676030400000, loanPaymentOf 2 7 400 1679313600000]"
  let ?c = "exampleCtx ?cr ?ps"
  have q: "queryLoanPayments ?c 7 = ?ps"
    by (rule example_query)
  have h1: "getNextLoanPayment ?c 7 1680350400000
              = Inr (Some (np_compute 20000 400 1673784000000 2 (Some 6) ?ps 1680350400000))"
    unfolding example_access q by (simp add: np_body_def exampleCar_def)
  have h2: "cars (db ?c) 7 = Some ?cr"
    by (simp add: exampleCtx_def)
  have h3: "loanTerm ?cr = Some 2" and h4: "purchaseDate ?cr = Some 1673784000000"
    by (simp_all add: exampleCar_def)
  have b1: "bucketCovered 1673784000000 1 ?ps" and b2: "bucketCovered 1673784000000 2 ?ps"
    by code_simp+
  have "{1..2::int} = {1, 2}" by auto
  then have h5: "\<forall>k\<in>{1..2}. bucketCovered 1673784000000 k (queryLoanPayments ?c 7)"
    unfolding q using b1 b2 by simp
  have bal: "1 / 100 < roundCents (np_balance 20000 1673784000000 (Some 6) ?ps)"
    by code_simp
  show ?thesis
    using all_buckets_covered_paid_off [OF h1 h2 h3 h4 h5] bal by simp
qed

text \<open>
  C10.  A purchase on 31 January 2023 (day of month 31): installments 1 and 2 are due on
  3 March and 31 March, the same month bucket.  With no payment the next due installment is
  number 1; with a single payment on 10 March both handlers move on to the due date of
  installment 3 (1 May), so installment 2 is never asked for.
\<close>

theorem month_end_purchase_skips_installment:
  "DateFromTime 1675166400000 = 31
   \<and> installmentDueDate (newDate 1675166400000) 1 = Num 1677844800000
   \<and> installmentDueDate (newDate 1675166400000) 2 = Num 1680264000000
   \<and> monthKey (installmentDueDate (newDate 1675166400000) 1) = (Num 2023, Num 2)
   \<and> monthKey (installmentDueDate (newDate 1675166400000) 2) = (Num 2023, Num 2)
   \<and> getNextLoanPayment
        (exampleCtx (exampleCar (Some 1675166400000) (Some 20000) (Some 12) (Some 6) (Some 400))
           []) 7 1680350400000
       = Inr (Some (Due \<lparr> np_nextDueDate = Num 1677844800000, np_monthlyPayment = 400,
                np_amountDue = 400, np_paidThisPeriod = 0, np_remainingBalance = 20000,
                np_paymentNumber = 1, np_isOverdue = True \<rparr>))
   \<and> getNextLoanPayment
        (exampleCtx (exampleCar (Some 1675166400000) (Some 20000) (Some 12) (Some 6) (Some 400))
           [loanPaymentOf 1 7 400 1678449600000]) 7 1680350400000
       = Inr (Some (Due \<lparr> np_nextDueDate = Num 1682942400000, np_monthlyPayment = 400,
                np_amountDue = 400, np_paidThisPeriod = 0, np_remainingBalance = 493121 / 25,
                np_paymentNumber = 3, np_isOverdue = False \<rparr>))
   \<and> map_sum id (map_option ld_nextPaymentDate)
        (getLoanDetails
          (exampleCtx (exampleCar (Some 1675166400000) (Some 20000) (Some 12) (Some 6) (Some 400))
             [loanPaymentOf 1 7 400 1678449600000]) 7 1680350400000)
       = Inr (Some (Some (Num 1682942400000)))"
  by (intro conjI; code_simp)

lemma getNextLoanPayment_Due:
  assumes "getNextLoanPayment c cid now = Inr (Some (Due d))"
      and "cars (db c) cid = Some cr"
  obtains la mp pd lt where
    "loanAmount cr = Some la" "monthlyPayment cr = Some mp"
    "purchaseDate cr = Some pd" "loanTerm cr = Some lt"
    "np_compute la mp pd lt (interestRate cr) (queryLoanPayments c cid) now = Due d"
  using getNextLoanPayment_Some [OF assms] by metis

lemma np_compute_due_at:
  assumes "1 / 100 < roundCents (np_balance la pd rate collected)"
      and "1 \<le> k" and "k \<le> lt"
      and "\<not> bucketCovered pd k collected"
      and "\<forall>j. 1 \<le> j \<and> j < k \<longrightarrow> bucketCovered pd j collected"
  shows "\<exists>d. np_compute la mp pd lt rate collected now = Due d
             \<and> np_paymentNumber d = k
             \<and> np_nextDueDate d = installmentDueDate (newDate pd) k"
proof -
  have nb: "\<not> roundCents (np_balance la pd rate collected) \<le> 1 / 100"
    using assms(1) by simp
  have "np_findUnpaid (newDate pd) (paidMonthsOf collected) lt 1
          = Some (installmentDueDate (newDate pd) k, k)"
    unfolding np_findUnpaid_Some
    using assms(2-5) by (simp add: bucketCovered_paidMonthsOf)
  from np_compute_Some [OF nb this, where mp = mp and now = now] show ?thesis
    by simp
qed

text \<open>
  C7, as amended.  For a caller with access to a car whose loan amount, monthly payment and
  purchase date are present and not 0, and whose balance after the payments rounds to more
  than 0.01: when installment \<open>k\<close> from 1 to the loan term has no payment in its bucket and
  every earlier installment has one (a payment whose month key equals the month key of that
  installment's due date, whatever the day of the month and whatever the order of the
  payments), \<open>getNextLoanPayment\<close> reports installment \<open>k\<close> as next due, with its due date;
  and a next due installment that is reported is always that first uncovered one.  In
  particular, for a loan term of at least 4, when installments 1, 2 and 3 have such payments
  and installment 4 has none, the reported number is 4; and for a purchase on a day of the
  month up to 28, where installment \<open>k\<close> falls due in the \<open>k\<close>-th calendar month after the
  purchase, payments in the first three calendar months after the purchase and none in the
  fourth give number 4.
\<close>

theorem next_due_is_first_uncovered_installment:
  assumes "getAuthUserId c = Some u"
      and "cars (db c) cid = Some cr"
      and "hasAccess c cid cr u = Inr True"
      and "loanAmount cr = Some la" and "la \<noteq> 0"
      and "monthlyPayment cr = Some mp" and "mp \<noteq> 0"
      and "purchaseDate cr = Some purchaseTs" and "purchaseTs \<noteq> 0"
      and "loanTerm cr = Some nTerm"
      and "1 / 100 < roundCents (np_balance la purchaseTs (interestRate cr)
                                   (queryLoanPayments c cid))"
  shows "(\<forall>k. 1 \<le> k \<and> k \<le> nTerm
              \<and> \<not> bucketCovered purchaseTs k (queryLoanPayments c cid)
              \<and> (\<forall>j. 1 \<le> j \<and> j < k
                     \<longrightarrow> bucketCovered purchaseTs j (queryLoanPayments c cid))
            \<longrightarrow> (\<exists>d. getNextLoanPayment c cid now = Inr (Some (Due d))
                      \<and> np_paymentNumber d = k
                      \<and> np_nextDueDate d = installmentDueDate (newDate purchaseTs) k))
       \<and> (\<forall>d. getNextLoanPayment c cid now = Inr (Some (Due d)) \<longrightarrow>
              1 \<le> np_paymentNumber d \<and> np_paymentNumber d \<le> nTerm
              \<and> np_nextDueDate d
                    = installmentDueDate (newDate purchaseTs) (np_paymentNumber d)
              \<and> \<not> bucketCovered purchaseTs (np_paymentNumber d) (queryLoanPayments c cid)
              \<and> (\<forall>j. 1 \<le> j \<and> j < np_paymentNumber d
                     \<longrightarrow> bucketCovered purchaseTs j (queryLoanPayments c cid)))
       \<and> (4 \<le> nTerm
            \<and> bucketCovered purchaseTs 1 (queryLoanPayments c cid)
            \<and> bucketCovered purchaseTs 2 (queryLoanPayments c cid)
            \<and> bucketCovered purchaseTs 3 (queryLoanPayments c cid)
            \<and> \<not> bucketCovered purchaseTs 4 (queryLoanPayments c cid)
            \<longrightarrow> (\<exists>d. getNextLoanPayment c cid now = Inr (Some (Due d))
                      \<and> np_paymentNumber d = 4))
       \<and> (4 \<le> nTerm
            \<and> \<bar>purchaseTs\<bar> \<le> 8640000000000000 \<and> DateFromTime purchaseTs \<le> 28
            \<and> installmentDueDate (newDate purchaseTs) 1 \<noteq> NaN
            \<and> installmentDueDate (newDate purchaseTs) 2 \<noteq> NaN
            \<and> installmentDueDate (newDate purchaseTs) 3 \<noteq> NaN
            \<and> installmentDueDate (newDate purchaseTs) 4 \<noteq> NaN
            \<and> calendarMonthCovered purchaseTs 1 (queryLoanPayments c cid)
            \<and> calendarMonthCovered purchaseTs 2 (queryLoanPayments c cid)
            \<and> calendarMonthCovered purchaseTs 3 (queryLoanPayments c cid)
            \<and> \<not> calendarMonthCovered purchaseTs 4 (queryLoanPayments c cid)
            \<longrightarrow> (\<exists>d. getNextLoanPayment c cid now = Inr (Some (Due d))
                      \<and> np_paymentNumber d = 4))"
proof -
  let ?ps = "queryLoanPayments c cid"
  let ?h = "getNextLoanPayment c cid now"
  have h: "?h = Inr (np_body cr ?ps now)"
    using assms(1-3) by (rule handlers_granted)
  have first: "\<exists>d. ?h = Inr (Some (Due d)) \<and> np_paymentNumber d = k
                   \<and> np_nextDueDate d = installmentDueDate (newDate purchaseTs) k"
    if k: "1 \<le> k" "k \<le> nTerm" and nk: "\<not> bucketCovered purchaseTs k ?ps"
      and ck: "\<forall>j. 1 \<le> j \<and> j < k \<longrightarrow> bucketCovered purchaseTs j ?ps" for k
  proof -
    have "nTerm \<noteq> 0" using k by simp
    then have b: "np_body cr ?ps now
                    = Some (np_compute la mp purchaseTs nTerm (interestRate cr) ?ps now)"
      using assms(4-10) by (intro np_body_present)
    show ?thesis
      unfolding h b using np_compute_due_at [OF assms(11) k nk ck, where mp = mp and now = now]
      by simp
  qed
  have conv: "1 \<le> np_paymentNumber d \<and> np_paymentNumber d \<le> nTerm
              \<and> np_nextDueDate d
                    = installmentDueDate (newDate purchaseTs) (np_paymentNumber d)
              \<and> \<not> bucketCovered purchaseTs (np_paymentNumber d) ?ps
              \<and> (\<forall>j. 1 \<le> j \<and> j < np_paymentNumber d
                     \<longrightarrow> bucketCovered purchaseTs j ?ps)"
    if due: "?h = Inr (Some (Due d))" for d
  proof -
    from due assms(2) obtain la1 mp1 pd lt where
      f: "purchaseDate cr = Some pd" "loanTerm cr = Some lt"
      and res: "np_compute la1 mp1 pd lt (interestRate cr) ?ps now = Due d"
      by (rule getNextLoanPayment_Due)
    from f assms(8,10) have eq: "pd = purchaseTs" "lt = nTerm"
      by simp_all
    have found: "np_findUnpaid (newDate purchaseTs) (paidMonthsOf ?ps) nTerm 1
                   = Some (np_nextDueDate d, np_paymentNumber d)"
      using np_compute_Due(2) [OF res] unfolding eq .
    note facts = iffD1 [OF np_findUnpaid_Some found]
    have due': "np_nextDueDate d
                  = installmentDueDate (newDate purchaseTs) (np_paymentNumber d)"
      using facts by simp
    have unpaid: "monthKey (np_nextDueDate d) \<notin> paidMonthsOf ?ps"
      using facts by blast
    have "\<not> bucketCovered purchaseTs (np_paymentNumber d) ?ps"
      using unpaid unfolding bucketCovered_paidMonthsOf due' [symmetric] .
    then show ?thesis
      using facts by (simp add: bucketCovered_paidMonthsOf)
  qed
  have four: "\<exists>d. ?h = Inr (Some (Due d)) \<and> np_paymentNumber d = 4"
    if t: "4 \<le> nTerm"
      and c: "bucketCovered purchaseTs 1 ?ps" "bucketCovered purchaseTs 2 ?ps"
          "bucketCovered purchaseTs 3 ?ps"
      and n4: "\<not> bucketCovered purchaseTs 4 ?ps"
  proof -
    have "bucketCovered purchaseTs j ?ps" if "1 \<le> j \<and> j < 4" for j
    proof -
      have "j = 1 \<or> j = 2 \<or> j = 3" using that by arith
      then show ?thesis using c by auto
    qed
    then have "\<forall>j. 1 \<le> j \<and> j < 4 \<longrightarrow> bucketCovered purchaseTs j ?ps"
      by blast
    from first [OF _ t n4 this] show ?thesis
      by auto
  qed
  have calendar: "\<exists>d. ?h = Inr (Some (Due d)) \<and> np_paymentNumber d = 4"
    if t: "4 \<le> nTerm"
      and v: "\<bar>purchaseTs\<bar> \<le> 8640000000000000" "DateFromTime purchaseTs \<le> 28"
      and ok: "installmentDueDate (newDate purchaseTs) 1 \<noteq> NaN"
          "installmentDueDate (newDate purchaseTs) 2 \<noteq> NaN"
          "installmentDueDate (newDate purchaseTs) 3 \<noteq> NaN"
          "installmentDueDate (newDate purchaseTs) 4 \<noteq> NaN"
      and c: "calendarMonthCovered purchaseTs 1 ?ps" "calendarMonthCovered purchaseTs 2 ?ps"
          "calendarMonthCovered purchaseTs 3 ?ps"
      and n4: "\<not> calendarMonthCovered purchaseTs 4 ?ps"
  proof -
    have same: "bucketCovered purchaseTs k ?ps \<longleftrightarrow> calendarMonthCovered purchaseTs k ?ps"
      if "installmentDueDate (newDate purchaseTs) k \<noteq> NaN" for k
      unfolding bucketCovered_def calendarMonthCovered_def
        installmentDueDate_month [OF v that] ..
    show ?thesis
      using c n4 by (intro four t) (simp_all only: same [OF ok(1)] same [OF ok(2)]
          same [OF ok(3)] same [OF ok(4)] simp_thms)
  qed
  show ?thesis
    using first conv four calendar by blast
qed


theorem next_due_is_first_uncovered_installment_witness:
  "(\<exists>d. getNextLoanPayment
          (exampleCtx (exampleCar (Some 1673784000000) (Some 20000) (Some 12) (Some 6) (Some 400))
             [loanPaymentOf 1 7 400 1679313600000, loanPaymentOf 2 7 400 1676030400000,
              loanPaymentOf 3 7 400 1681128000000])
          7 1682000000000 = Inr (Some (Due d))
        \<and> np_paymentNumber d = 4)
   \<and> roundCents (np_balance 20000 1673784000000 (Some 6)
        [loanPaymentOf 1 7 400 1679313600000, loanPaymentOf 2 7 400 1676030400000,
         loanPaymentOf 3 7 400 1681128000000]) = 1907523 / 100
   \<and> DateFromTime 1673784000000 = 15
   \<and> calendarMonthCovered 1673784000000 1
        [loanPaymentOf 1 7 400 1679313600000, loanPaymentOf 2 7 400 1676030400000,
         loanPaymentOf 3 7 400 1681128000000]
   \<and> calendarMonthCovered 1673784000000 2
        [loanPaymentOf 1 7 400 1679313600000, loanPaymentOf 2 7 400 1676030400000,
         loanPaymentOf 3 7 400 1681128000000]
   \<and> calendarMonthCovered 1673784000000 3
        [loanPaymentOf 1 7 400 1679313600000, loanPaymentOf 2 7 400 1676030400000,
         loanPaymentOf 3 7 400 1681128000000]
   \<and> \<not> calendarMonthCovered 1673784000000 4
        [loanPaymentOf 1 7 400 1679313600000, loanPaymentOf 2 7 400 1676030400000,
         loanPaymentOf 3 7 400 1681128000000]"
proof -
  let ?cr = "exampleCar (Some 1673784000000) (Some 20000) (Some 12) (Some 6) (Some 400)"
  let ?ps = "[loanPaymentOf 1 7 400 1679313600000, loanPaymentOf 2 7 400 1676030400000,
              loanPaymentOf 3 7 400 1681128000000]"
  let ?c = "exampleCtx ?cr ?ps"
  have a1: "getAuthUserId ?c = Some 1" and a2: "cars (db ?c) 7 = Some ?cr"
    by (simp_all add: exampleCtx_def)
  have a3: "hasAccess ?c 7 ?cr 1 = Inr True"
    by (simp add: hasAccess_def exampleCar_def)
  have f: "loanAmount ?cr = Some 20000" "(20000::rat) \<noteq> 0"
      "monthlyPayment ?cr = Some 400" "(400::rat) \<noteq> 0"
      "purchaseDate ?cr = Some 1673784000000" "(1673784000000::int) \<noteq> 0"
      "loanTerm ?cr = Some 12"
    by (simp_all add: exampleCar_def)
  have q: "queryLoanPayments ?c 7 = ?ps"
    by (simp add: queryLoanPayments_def exampleCtx_def loanPaymentOf_def)
  have r: "interestRate ?cr = Some 6"
    by (simp add: exampleCar_def)
  have b: "roundCents (np_balance 20000 1673784000000 (Some 6) ?ps) = 1907523 / 100"
    by code_simp
  have bal: "1 / 100 < roundCents (np_balance 20000 1673784000000 (interestRate ?cr)
                                     (queryLoanPayments ?c 7))"
    unfolding q r b by simp
  have v: "\<bar>1673784000000::int\<bar> \<le> 8640000000000000"
    by simp
  have day: "DateFromTime 1673784000000 = 15"
    by code_simp
  have ok: "installmentDueDate (newDate 1673784000000) 1 \<noteq> NaN"
      "installmentDueDate (newDate 1673784000000) 2 \<noteq> NaN"
      "installmentDueDate (newDate 1673784000000) 3 \<noteq> NaN"
      "installmentDueDate (newDate 1673784000000) 4 \<noteq> NaN"
    by code_simp+
  have c1: "calendarMonthCovered 1673784000000 1 ?ps"
    and c2: "calendarMonthCovered 1673784000000 2 ?ps"
    and c3: "calendarMonthCovered 1673784000000 3 ?ps"
    and n4: "\<not> calendarMonthCovered 1673784000000 4 ?ps"
    by code_simp+
  have "\<exists>d. getNextLoanPayment ?c 7 1682000000000 = Inr (Some (Due d))
           \<and> np_paymentNumber d = 4"
    using next_due_is_first_uncovered_installment [OF a1 a2 a3 f bal, of 1682000000000]
      v day ok c1 c2 c3 n4
    unfolding q by simp
  then show ?thesis
    using b day c1 c2 c3 n4 by (intro conjI)
qed

text \<open>
  C7 as stated speaks of the first three calendar months after the purchase.  For a
  purchase on 31 January 2023 with payments on 15 February, 15 March and 15 April (the
  buckets of February, March and April) the handler reports installment 3, not 4:
  installments 1 and 2 both fall due in March.
\<close>

theorem first_three_calendar_months_counterexample:
  "monthKey (newDate 1675166400000) = (Num 2023, Num 0)
   \<and> map (\<lambda>p. monthKey (newDate (date p)))
        [loanPaymentOf 1 7 400 1676462400000, loanPaymentOf 2 7 400 1678881600000,
         loanPaymentOf 3 7 400 1681560000000]
       = [(Num 2023, Num 1), (Num 2023, Num 2), (Num 2023, Num 3)]
   \<and> getNextLoanPayment
        (exampleCtx (exampleCar (Some 1675166400000) (Some 20000) (Some 12) (Some 6) (Some 400))
           [loanPaymentOf 1 7 400 1676462400000, loanPaymentOf 2 7 400 1678881600000,
            loanPaymentOf 3 7 400 1681560000000])
        7 1682000000000
       = Inr (Some (Due \<lparr> np_nextDueDate = Num 1682942400000, np_monthlyPayment = 400,
                np_amountDue = 0, np_paidThisPeriod = 400,
                np_remainingBalance = 1903813 / 100, np_paymentNumber = 3,
                np_isOverdue = False \<rparr>))"
  by (intro conjI; code_simp)

lemma foldl_amount: "foldl (\<lambda>sum payment. sum + amount payment) a xs = a + sum_list (map amount xs)"
  by (induction xs arbitrary: a) simp_all

lemma sum_list_amount_filter_sort:
  "sum_list (map amount (filter P (sort_key date xs))) = sum_list (map amount (filter P xs))"
proof -
  have "mset (map amount (filter P (sort_key date xs))) = mset (map amount (filter P xs))"
    by simp
  then have "sum_mset (mset (map amount (filter P (sort_key date xs))))
               = sum_mset (mset (map amount (filter P xs)))"
    by (rule arg_cong)
  then show ?thesis
    by (simp only: sum_mset_sum_list)
qed

lemma np_paidInPeriod_eq_spec:
  "np_paidInPeriod dueDate collected = spec_paidThisPeriod dueDate collected"
  unfolding np_paidInPeriod_def spec_paidThisPeriod_def spec_currentPeriodStart_def
  by (simp add: foldl_amount sum_list_amount_filter_sort)

text \<open>
  C6.  When \<open>getNextLoanPayment\<close> reports a next due installment, \<open>amountDue\<close> is
  \<open>max(0, effectivePayment - paidThisPeriod)\<close> rounded to cents, where \<open>paidThisPeriod\<close>
  sums the payments dated after the due date minus one calendar month and not after the due
  date, and \<open>effectivePayment\<close> is the remaining balance when that is below the monthly
  payment and the monthly payment otherwise.
\<close>

theorem amount_due_as_specified:
  assumes "getNextLoanPayment c cid now = Inr (Some (Due d))"
      and "cars (db c) cid = Some cr"
      and "monthlyPayment cr = Some monthlyPmt"
  shows "np_amountDue d
           = spec_amountDue (np_remainingBalance d) monthlyPmt (np_nextDueDate d)
               (queryLoanPayments c cid)"
proof -
  from assms(1,2) obtain la mp pd lt where
    f: "monthlyPayment cr = Some mp"
    and res: "np_compute la mp pd lt (interestRate cr) (queryLoanPayments c cid) now = Due d"
    by (rule getNextLoanPayment_Due)
  from f assms(3) have eq: "mp = monthlyPmt" by simp
  show ?thesis
    unfolding np_compute_Due(5) [OF res] eq spec_amountDue_def spec_effectivePayment_def
      np_paidInPeriod_eq_spec
    by simp
qed

theorem amount_due_as_specified_witness:
  "getNextLoanPayment
     (exampleCtx (exampleCar (Some 1673784000000) (Some 20000) (Some 12) (Some 6) (Some 400))
        [loanPaymentOf 1 7 150 1676894400000]) 7 1677000000000
     = Inr (Some (Due \<lparr> np_nextDueDate = Num 1678881600000, np_monthlyPayment = 400,
              np_amountDue = 250, np_paidThisPeriod = 150,
              np_remainingBalance = 1996827 / 100, np_paymentNumber = 2,
              np_isOverdue = False \<rparr>))
   \<and> spec_amountDue (1996827 / 100) 400 (Num 1678881600000)
         [loanPaymentOf 1 7 150 1676894400000] = 250"
proof -
  let ?cr = "exampleCar (Some 1673784000000) (Some 20000) (Some 12) (Some 6) (Some 400)"
  let ?ps = "[loanPaymentOf 1 7 150 1676894400000]"
  let ?c = "exampleCtx ?cr ?ps"
  let ?d = "\<lparr> np_nextDueDate = Num 1678881600000, np_monthlyPayment = 400,
              np_amountDue = 250, np_paidThisPeriod = 150,
              np_remainingBalance = 1996827 / 100, np_paymentNumber = 2,
              np_isOverdue = False \<rparr>"
  have h1: "getNextLoanPayment ?c 7 1677000000000 = Inr (Some (Due ?d))"
    by code_simp
  have h2: "cars (db ?c) 7 = Some ?cr"
    by (simp add: exampleCtx_def)
  have h3: "monthlyPayment ?cr = Some 400"
    by (simp add: exampleCar_def)
  have q: "queryLoanPayments ?c 7 = ?ps"
    by (simp add: queryLoanPayments_def exampleCtx_def loanPaymentOf_def)
  show ?thesis
    using amount_due_as_specified [OF h1 h2 h3] h1 unfolding q by simp
qed

section \<open>The projector of the specification\<close>

lemma orElse_rate: "orElse rate 0 / 100 / 12 = spec_monthlyInterestRate rate"
  by (cases rate) (simp_all add: orElse_def spec_monthlyInterestRate_def)

lemma orElse_Some: "v \<noteq> 0 \<Longrightarrow> orElse (Some v) d = v"
  by (simp add: orElse_def)

lemma np_balance_eq_spec:
  "np_balance la pd rate collected
     = fst (spec_projector (spec_monthlyInterestRate rate) la pd (sort_key date collected))"
  by (simp only: np_balance_def orElse_rate np_processPayments_eq_spec)

lemma ld_body_Some:
  "ld_body cr collected now = Some r \<longleftrightarrow>
     (\<exists>la mp lt. truthy (loanAmount cr) = Some la \<and> truthy (monthlyPayment cr) = Some mp
        \<and> truthy (loanTerm cr) = Some lt
        \<and> r = ld_compute cr la mp lt collected now)"
  by (auto simp: ld_body_def split: option.splits)

lemma ld_compute_remainingBalance:
  "ld_remainingBalance (ld_compute cr la mp lt collected now)
     = max 0 (ld_projectedBalance cr la collected now)"
  by (simp add: ld_compute_def ld_projectedBalance_def Let_def)

lemma ld_compute_isPaidOff:
  "ld_isPaidOff (ld_compute cr la mp lt collected now)
     \<longleftrightarrow> ld_projectedBalance cr la collected now \<le> 1 / 100"
  by (simp add: ld_compute_def ld_projectedBalance_def Let_def)

lemma getLoanDetails_Some:
  assumes "getLoanDetails c cid now = Inr (Some r)"
      and "cars (db c) cid = Some cr"
  obtains la mp lt where
    "loanAmount cr = Some la" "la \<noteq> 0" "monthlyPayment cr = Some mp" "mp \<noteq> 0"
    "loanTerm cr = Some lt" "lt \<noteq> 0"
    "r = ld_compute cr la mp lt (queryLoanPayments c cid) now"
proof -
  from assms have "ld_body cr (queryLoanPayments c cid) now = Some r"
    by (auto simp: getLoanDetails_Inr)
  then obtain la mp lt where
    "truthy (loanAmount cr) = Some la" "truthy (monthlyPayment cr) = Some mp"
    "truthy (loanTerm cr) = Some lt"
    "r = ld_compute cr la mp lt (queryLoanPayments c cid) now"
    unfolding ld_body_Some by blast
  then show ?thesis
    using that [of la mp lt] by (simp only: truthy_Some) blast
qed

lemma ld_body_present:
  assumes "loanAmount cr = Some la" "la \<noteq> 0" "monthlyPayment cr = Some mp" "mp \<noteq> 0"
      and "loanTerm cr = Some lt" "lt \<noteq> 0"
  shows "ld_body cr collected now = Some (ld_compute cr la mp lt collected now)"
  using assms by (simp add: ld_body_def)

lemma orElse_missingOrZero: "missingOrZero x \<Longrightarrow> orElse x d = d"
  by (auto simp: missingOrZero_def orElse_def)

lemma np_body_no_purchaseDate:
  "missingOrZero (purchaseDate cr) \<Longrightarrow> np_body cr collected now = None"
  by (auto simp: np_body_def missingOrZero_def split: option.splits)

lemma ld_projectedBalance_anchor:
  "ld_projectedBalance cr la collected now =
     roundCents
       (fst (spec_projector (spec_monthlyInterestRate (interestRate cr)) la
               (orElse (purchaseDate cr) now) (sort_key date collected))
        + fst (spec_projector (spec_monthlyInterestRate (interestRate cr)) la
                 (orElse (purchaseDate cr) now) (sort_key date collected))
          * spec_monthlyInterestRate (interestRate cr)
          * spec_monthsElapsed now
              (snd (spec_projector (spec_monthlyInterestRate (interestRate cr)) la
                      (orElse (purchaseDate cr) now) (sort_key date collected))))"
  unfolding ld_projectedBalance_def Let_def orElse_rate
    ld_processPayments_eq_np np_processPayments_eq_spec spec_monthsElapsed_def monthMs_spec
  by (rule refl)

text \<open>
  C1, as amended.  For a caller with access to a car whose loan amount, monthly payment and
  loan term are present and not 0: the payments are processed in ascending date order, and
  the loop of either handler, from any last date, is the projector of the specification
  started at the loan amount with monthly rate (interestRate or 0)/100/12 and the fixed
  month of 30.44 days.  With a purchase date that is present and not 0 both handlers start
  the last date at the purchase date: \<open>getNextLoanPayment\<close> reports the rounded balance and
  \<open>getLoanDetails\<close> the balance with the interest accrued up to the current time.  With a
  purchase date that is absent or 0, \<open>getNextLoanPayment\<close> returns \<open>null\<close> and
  \<open>getLoanDetails\<close> starts the last date at the current time.
\<close>

theorem balance_projection_from_anchor:
  assumes "getAuthUserId c = Some u"
      and "cars (db c) cid = Some cr"
      and "hasAccess c cid cr u = Inr True"
      and "loanAmount cr = Some la" and "la \<noteq> 0"
      and "monthlyPayment cr = Some mp" and "mp \<noteq> 0"
      and "loanTerm cr = Some nTerm" and "nTerm \<noteq> 0"
  shows "sorted (map date (sort_key date (queryLoanPayments c cid)))
       \<and> mset (sort_key date (queryLoanPayments c cid)) = mset (queryLoanPayments c cid)
       \<and> (\<forall>anchor.
             np_processPayments (spec_monthlyInterestRate (interestRate cr)) (la, anchor)
                 (sort_key date (queryLoanPayments c cid))
               = spec_projector (spec_monthlyInterestRate (interestRate cr)) la anchor
                   (sort_key date (queryLoanPayments c cid))
           \<and> ld_processPayments (spec_monthlyInterestRate (interestRate cr)) (la, anchor)
                 (sort_key date (queryLoanPayments c cid))
               = spec_projector (spec_monthlyInterestRate (interestRate cr)) la anchor
                   (sort_key date (queryLoanPayments c cid)))
       \<and> (\<forall>pd. purchaseDate cr = Some pd \<and> pd \<noteq> 0 \<longrightarrow>
             (\<exists>res. getNextLoanPayment c cid now = Inr (Some res)
                \<and> (roundCents (fst (spec_projector (spec_monthlyInterestRate (interestRate cr))
                                       la pd (sort_key date (queryLoanPayments c cid))))
                      \<le> 1 / 100 \<longrightarrow> res = PaidOff)
                \<and> (\<forall>d. res = Due d \<longrightarrow>
                       np_remainingBalance d
                         = roundCents (fst (spec_projector
                                              (spec_monthlyInterestRate (interestRate cr))
                                              la pd (sort_key date (queryLoanPayments c cid))))))
           \<and> (\<exists>r. getLoanDetails c cid now = Inr (Some r)
                \<and> ld_remainingBalance r
                    = max 0 (roundCents
                        (fst (spec_projector (spec_monthlyInterestRate (interestRate cr)) la pd
                                (sort_key date (queryLoanPayments c cid)))
                         + fst (spec_projector (spec_monthlyInterestRate (interestRate cr)) la pd
                                  (sort_key date (queryLoanPayments c cid)))
                           * spec_monthlyInterestRate (interestRate cr)
                           * spec_monthsElapsed now
                               (snd (spec_projector (spec_monthlyInterestRate (interestRate cr))
                                       la pd (sort_key date (queryLoanPayments c cid))))))))
       \<and> (missingOrZero (purchaseDate cr) \<longrightarrow>
             getNextLoanPayment c cid now = Inr None
           \<and> (\<exists>r. getLoanDetails c cid now = Inr (Some r)
                \<and> ld_remainingBalance r
                    = max 0 (roundCents
                        (fst (spec_projector (spec_monthlyInterestRate (interestRate cr)) la now
                                (sort_key date (queryLoanPayments c cid)))
                         + fst (spec_projector (spec_monthlyInterestRate (interestRate cr)) la now
                                  (sort_key date (queryLoanPayments c cid)))
                           * spec_monthlyInterestRate (interestRate cr)
                           * spec_monthsElapsed now
                               (snd (spec_projector (spec_monthlyInterestRate (interestRate cr))
                                       la now (sort_key date (queryLoanPayments c cid))))))))"
proof -
  let ?ps = "queryLoanPayments c cid"
  let ?rate = "spec_monthlyInterestRate (interestRate cr)"
  let ?P = "\<lambda>a. spec_projector ?rate la a (sort_key date ?ps)"
  let ?proj = "\<lambda>a. max 0 (roundCents (fst (?P a) + fst (?P a) * ?rate
                                          * spec_monthsElapsed now (snd (?P a))))"
  have np: "getNextLoanPayment c cid now = Inr (np_body cr ?ps now)"
    and ld: "getLoanDetails c cid now = Inr (ld_body cr ?ps now)"
    using assms(1-3) by (rule handlers_granted)+
  have ldb: "ld_body cr ?ps now = Some (ld_compute cr la mp nTerm ?ps now)"
    using assms(4-9) by (rule ld_body_present)
  have "ld_remainingBalance (ld_compute cr la mp nTerm ?ps now)
          = ?proj (orElse (purchaseDate cr) now)"
    by (simp only: ld_compute_remainingBalance ld_projectedBalance_anchor)
  then have details: "\<exists>r. getLoanDetails c cid now = Inr (Some r)
                    \<and> ld_remainingBalance r = ?proj (orElse (purchaseDate cr) now)"
    unfolding ld ldb by blast
  have present: "(\<exists>res. getNextLoanPayment c cid now = Inr (Some res)
                   \<and> (roundCents (fst (?P pd)) \<le> 1 / 100 \<longrightarrow> res = PaidOff)
                   \<and> (\<forall>d. res = Due d \<longrightarrow> np_remainingBalance d = roundCents (fst (?P pd))))
               \<and> (\<exists>r. getLoanDetails c cid now = Inr (Some r)
                      \<and> ld_remainingBalance r = ?proj pd)"
    if pd: "purchaseDate cr = Some pd" "pd \<noteq> 0" for pd
  proof -
    let ?res = "np_compute la mp pd nTerm (interestRate cr) ?ps now"
    have npb: "np_body cr ?ps now = Some ?res"
      using assms(4-7) pd assms(8,9) by (rule np_body_present)
    have paid: "roundCents (fst (?P pd)) \<le> 1 / 100 \<longrightarrow> ?res = PaidOff"
      unfolding np_compute_PaidOff np_balance_eq_spec by simp
    have due: "\<forall>d. ?res = Due d \<longrightarrow> np_remainingBalance d = roundCents (fst (?P pd))"
    proof (intro allI impI)
      fix d assume "?res = Due d"
      from np_compute_Due(3) [OF this] show "np_remainingBalance d = roundCents (fst (?P pd))"
        unfolding np_balance_eq_spec .
    qed
    have "orElse (purchaseDate cr) now = pd"
      unfolding pd(1) using pd(2) by (rule orElse_Some)
    with details paid due show ?thesis
      unfolding np npb by simp
  qed
  have absent: "getNextLoanPayment c cid now = Inr None
               \<and> (\<exists>r. getLoanDetails c cid now = Inr (Some r)
                      \<and> ld_remainingBalance r = ?proj now)"
    if m: "missingOrZero (purchaseDate cr)"
  proof -
    have "np_body cr ?ps now = None"
      using m by (rule np_body_no_purchaseDate)
    moreover have "orElse (purchaseDate cr) now = now"
      using m by (rule orElse_missingOrZero)
    ultimately show ?thesis
      using details unfolding np by simp
  qed
  have loops: "np_processPayments ?rate (la, a) (sort_key date ?ps) = ?P a
             \<and> ld_processPayments ?rate (la, a) (sort_key date ?ps) = ?P a" for a
    by (simp add: np_processPayments_eq_spec ld_processPayments_eq_np)
  have order: "sorted (map date (sort_key date ?ps))"
      "mset (sort_key date ?ps) = mset ?ps"
    by simp_all
  show ?thesis
    using order loops present absent by blast
qed

theorem balance_projection_from_anchor_witness:
  "getNextLoanPayment
     (exampleCtx (exampleCar (Some 1675166400000) (Some 20000) (Some 12) (Some 6) (Some 400))
        [loanPaymentOf 1 7 400 1678449600000]) 7 1680350400000
     = Inr (Some (Due \<lparr> np_nextDueDate = Num 1682942400000, np_monthlyPayment = 400,
              np_amountDue = 400, np_paidThisPeriod = 0, np_remainingBalance = 493121 / 25,
              np_paymentNumber = 3, np_isOverdue = False \<rparr>))
   \<and> spec_projector (1 / 200) 20000 1675166400000 [loanPaymentOf 1 7 400 1678449600000]
       = (15010600 / 761, 1678449600000)
   \<and> roundCents (15010600 / 761) = 493121 / 25
   \<and> map_sum id (map_option ld_remainingBalance)
        (getLoanDetails
           (exampleCtx (exampleCar (Some 1675166400000) (Some 20000) (Some 12) (Some 6) (Some 400))
              [loanPaymentOf 1 7 400 1678449600000]) 7 1680350400000)
       = Inr (Some (1979611 / 100))
   \<and> getNextLoanPayment
        (exampleCtx (exampleCar None (Some 20000) (Some 12) (Some 6) (Some 400))
           [loanPaymentOf 1 7 400 1678449600000]) 7 1680350400000
       = Inr None
   \<and> spec_projector (1 / 200) 20000 1680350400000 [loanPaymentOf 1 7 400 1678449600000]
       = (19600, 1678449600000)
   \<and> map_sum id (map_option ld_remainingBalance)
        (getLoanDetails
           (exampleCtx (exampleCar None (Some 20000) (Some 12) (Some 6) (Some 400))
              [loanPaymentOf 1 7 400 1678449600000]) 7 1680350400000)
       = Inr (Some (1967083 / 100))"
proof -
  let ?cr = "exampleCar (Some 1675166400000) (Some 20000) (Some 12) (Some 6) (Some 400)"
  let ?absent = "exampleCar None (Some 20000) (Some 12) (Some 6) (Some 400)"
  let ?ps = "[loanPaymentOf 1 7 400 1678449600000]"
  let ?c = "exampleCtx ?cr ?ps"
  let ?ctxAbsent = "exampleCtx ?absent ?ps"
  let ?d = "\<lparr> np_nextDueDate = Num 1682942400000, np_monthlyPayment = 400,
              np_amountDue = 400, np_paidThisPeriod = 0, np_remainingBalance = 493121 / 25,
              np_paymentNumber = 3, np_isOverdue = False \<rparr>"
  have a: "getAuthUserId ?c = Some 1" "cars (db ?c) 7 = Some ?cr"
      "hasAccess ?c 7 ?cr 1 = Inr True"
    by (simp_all add: exampleCtx_def hasAccess_def exampleCar_def)
  have a0: "getAuthUserId ?ctxAbsent = Some 1" "cars (db ?ctxAbsent) 7 = Some ?absent"
      "hasAccess ?ctxAbsent 7 ?absent 1 = Inr True"
    by (simp_all add: exampleCtx_def hasAccess_def exampleCar_def)
  have f: "loanAmount ?cr = Some 20000" "(20000::rat) \<noteq> 0"
      "monthlyPayment ?cr = Some 400" "(400::rat) \<noteq> 0"
      "loanTerm ?cr = Some 12" "(12::int) \<noteq> 0"
    by (simp_all add: exampleCar_def)
  have f0: "loanAmount ?absent = Some 20000" "(20000::rat) \<noteq> 0"
      "monthlyPayment ?absent = Some 400" "(400::rat) \<noteq> 0"
      "loanTerm ?absent = Some 12" "(12::int) \<noteq> 0"
    by (simp_all add: exampleCar_def)
  have pd: "purchaseDate ?cr = Some 1675166400000 \<and> (1675166400000::int) \<noteq> 0"
    by (simp add: exampleCar_def)
  have pd0: "missingOrZero (purchaseDate ?absent)"
    by (simp add: exampleCar_def missingOrZero_def)
  have rate: "spec_monthlyInterestRate (interestRate ?cr) = 1 / 200"
      "spec_monthlyInterestRate (interestRate ?absent) = 1 / 200"
    by (simp_all add: exampleCar_def spec_monthlyInterestRate_def)
  have q: "sort_key date (queryLoanPayments ?c 7) = ?ps"
      "sort_key date (queryLoanPayments ?ctxAbsent 7) = ?ps"
    by (simp_all add: queryLoanPayments_def exampleCtx_def loanPaymentOf_def)
  have h: "getNextLoanPayment ?c 7 1680350400000 = Inr (Some (Due ?d))"
    by code_simp
  have p: "spec_projector (1 / 200) 20000 1675166400000 ?ps
             = (15010600 / 761, 1678449600000)"
    by code_simp
  have p0: "spec_projector (1 / 200) 20000 1680350400000 ?ps = (19600, 1678449600000)"
    by code_simp
  have b: "roundCents (15010600 / 761) = 493121 / 25"
    by code_simp
  have e: "max 0 (roundCents (15010600 / 761 + 15010600 / 761 * (1 / 200)
             * spec_monthsElapsed 1680350400000 1678449600000)) = 1979611 / 100"
    by code_simp
  have e0: "max 0 (roundCents (19600 + 19600 * (1 / 200)
              * spec_monthsElapsed 1680350400000 1678449600000)) = 1967083 / 100"
    by code_simp
  note present = balance_projection_from_anchor [OF a f, of 1680350400000]
  have "\<exists>r. getLoanDetails ?c 7 1680350400000 = Inr (Some r)
           \<and> ld_remainingBalance r
               = max 0 (roundCents
                   (fst (spec_projector (spec_monthlyInterestRate (interestRate ?cr)) 20000
                           1675166400000 (sort_key date (queryLoanPayments ?c 7)))
                    + fst (spec_projector (spec_monthlyInterestRate (interestRate ?cr)) 20000
                             1675166400000 (sort_key date (queryLoanPayments ?c 7)))
                      * spec_monthlyInterestRate (interestRate ?cr)
                      * spec_monthsElapsed 1680350400000
                          (snd (spec_projector (spec_monthlyInterestRate (interestRate ?cr))
                                  20000 1675166400000
                                  (sort_key date (queryLoanPayments ?c 7))))))"
    using present pd by blast
  then have "\<exists>r. getLoanDetails ?c 7 1680350400000 = Inr (Some r)
           \<and> ld_remainingBalance r = 1979611 / 100"
    unfolding q rate p fst_conv snd_conv e .
  then have l: "map_sum id (map_option ld_remainingBalance)
                  (getLoanDetails ?c 7 1680350400000) = Inr (Some (1979611 / 100))"
    by auto
  note absent = balance_projection_from_anchor [OF a0 f0, of 1680350400000]
  have "getNextLoanPayment ?ctxAbsent 7 1680350400000 = Inr None
        \<and> (\<exists>r. getLoanDetails ?ctxAbsent 7 1680350400000 = Inr (Some r)
           \<and> ld_remainingBalance r
               = max 0 (roundCents
                   (fst (spec_projector (spec_monthlyInterestRate (interestRate ?absent)) 20000
                           1680350400000 (sort_key date (queryLoanPayments ?ctxAbsent 7)))
                    + fst (spec_projector (spec_monthlyInterestRate (interestRate ?absent)) 20000
                             1680350400000 (sort_key date (queryLoanPayments ?ctxAbsent 7)))
                      * spec_monthlyInterestRate (interestRate ?absent)
                      * spec_monthsElapsed 1680350400000
                          (snd (spec_projector (spec_monthlyInterestRate (interestRate ?absent))
                                  20000 1680350400000
                                  (sort_key date (queryLoanPayments ?ctxAbsent 7)))))))"
    using absent pd0 by blast
  then have "getNextLoanPayment ?ctxAbsent 7 1680350400000 = Inr None
        \<and> (\<exists>r. getLoanDetails ?ctxAbsent 7 1680350400000 = Inr (Some r)
              \<and> ld_remainingBalance r = 1967083 / 100)"
    unfolding q rate p0 fst_conv snd_conv e0 .
  then have n0: "getNextLoanPayment ?ctxAbsent 7 1680350400000 = Inr None"
    and l0: "map_sum id (map_option ld_remainingBalance)
               (getLoanDetails ?ctxAbsent 7 1680350400000) = Inr (Some (1967083 / 100))"
    by auto
  show ?thesis
    using h p b l n0 p0 l0 by (intro conjI)
qed

text \<open>
  C1 as stated starts the last date at the purchase date for every car with the loan fields
  present.  For a purchase date of 0 (1 January 1970), a loan of 20000 at 6 percent and one
  payment of 400 after 31 days, the projector started at the purchase date gives 19701.84;
  \<open>getLoanDetails\<close>, asked at the time of the payment, starts at the current time instead
  and reports 19600, and \<open>getNextLoanPayment\<close> returns \<open>null\<close>.
\<close>

theorem purchase_date_zero_anchor_counterexample:
  "purchaseDate (exampleCar (Some 0) (Some 20000) (Some 60) (Some 6) (Some 400)) = Some 0
   \<and> loanAmount (exampleCar (Some 0) (Some 20000) (Some 60) (Some 6) (Some 400)) = Some 20000
   \<and> spec_projector (spec_monthlyInterestRate (Some 6)) 20000 0
        [loanPaymentOf 1 7 400 2678400000] = (14993100 / 761, 2678400000)
   \<and> ld_processPayments (orElse (Some 6) 0 / 100 / 12) (20000, 0)
        [loanPaymentOf 1 7 400 2678400000] = (14993100 / 761, 2678400000)
   \<and> roundCents (14993100 / 761) = 492546 / 25
   \<and> map_sum id (map_option ld_remainingBalance)
        (getLoanDetails
           (exampleCtx (exampleCar (Some 0) (Some 20000) (Some 60) (Some 6) (Some 400))
              [loanPaymentOf 1 7 400 2678400000]) 7 2678400000)
       = Inr (Some 19600)
   \<and> getNextLoanPayment
        (exampleCtx (exampleCar (Some 0) (Some 20000) (Some 60) (Some 6) (Some 400))
           [loanPaymentOf 1 7 400 2678400000]) 7 2678400000
       = Inr None"
  by (intro conjI; code_simp)


section \<open>Missing loan information\<close>

lemma truthy_None_missingOrZero: "truthy x = None \<longleftrightarrow> missingOrZero x"
  by (simp add: truthy_None missingOrZero_def)

lemma np_body_None:
  "np_body cr collected now = None \<longleftrightarrow>
     missingOrZero (loanAmount cr) \<or> missingOrZero (monthlyPayment cr)
     \<or> missingOrZero (loanTerm cr) \<or> missingOrZero (purchaseDate cr)"
  unfolding truthy_None_missingOrZero [symmetric]
  by (auto simp: np_body_def split: option.splits)

lemma ld_body_None:
  "ld_body cr collected now = None \<longleftrightarrow>
     missingOrZero (loanAmount cr) \<or> missingOrZero (monthlyPayment cr)
     \<or> missingOrZero (loanTerm cr)"
  unfolding truthy_None_missingOrZero [symmetric]
  by (auto simp: ld_body_def split: option.splits)

text \<open>
  C2, as amended.  For an authenticated call with access granted, neither handler raises an
  error.  \<open>getNextLoanPayment\<close> returns \<open>null\<close> exactly when one of \<open>loanAmount\<close>,
  \<open>monthlyPayment\<close>, \<open>loanTerm\<close>, \<open>purchaseDate\<close> is absent or 0, and \<open>getLoanDetails\<close>
  exactly when one of \<open>loanAmount\<close>, \<open>monthlyPayment\<close>, \<open>loanTerm\<close> is absent or 0.
\<close>

theorem null_exactly_when_field_missing_or_zero:
  assumes "getAuthUserId c = Some u"
      and "cars (db c) cid = Some cr"
      and "hasAccess c cid cr u = Inr True"
  shows "(\<exists>res. getNextLoanPayment c cid now = Inr res)
       \<and> (getNextLoanPayment c cid now = Inr None \<longleftrightarrow>
            missingOrZero (loanAmount cr) \<or> missingOrZero (monthlyPayment cr)
            \<or> missingOrZero (loanTerm cr) \<or> missingOrZero (purchaseDate cr))
       \<and> (\<exists>r. getLoanDetails c cid now = Inr r)
       \<and> (getLoanDetails c cid now = Inr None \<longleftrightarrow>
            missingOrZero (loanAmount cr) \<or> missingOrZero (monthlyPayment cr)
            \<or> missingOrZero (loanTerm cr))"
proof -
  have np: "getNextLoanPayment c cid now = Inr (np_body cr (queryLoanPayments c cid) now)"
    using assms by (simp add: getNextLoanPayment_def)
  have ld: "getLoanDetails c cid now = Inr (ld_body cr (queryLoanPayments c cid) now)"
    using assms by (simp add: getLoanDetails_def)
  show ?thesis
    unfolding np ld by (simp add: np_body_None ld_body_None)
qed

theorem null_exactly_when_field_missing_or_zero_witness:
  "getNextLoanPayment
     (exampleCtx (exampleCar None (Some 20000) (Some 12) None (Some 400)) []) 7 1680350400000
     = Inr None
   \<and> getLoanDetails
       (exampleCtx (exampleCar None (Some 20000) (Some 12) None (Some 400)) []) 7 1680350400000
     \<noteq> Inr None"
proof -
  let ?cr = "exampleCar None (Some 20000) (Some 12) None (Some 400)"
  let ?c = "exampleCtx ?cr []"
  have h1: "getAuthUserId ?c = Some 1" and h2: "cars (db ?c) 7 = Some ?cr"
    by (simp_all add: exampleCtx_def)
  have h3: "hasAccess ?c 7 ?cr 1 = Inr True"
    by (simp add: hasAccess_def exampleCar_def)
  show ?thesis
    using null_exactly_when_field_missing_or_zero [OF h1 h2 h3, of 1680350400000]
    by (simp add: missingOrZero_def exampleCar_def)
qed

text \<open>
  C2 as stated fails for a field that is present with value 0.  A car with
  \<open>loanAmount = 0\<close> and all other loan fields set gets \<open>null\<close> from both handlers, and a car
  whose only zero field is \<open>purchaseDate\<close> (the epoch) gets \<open>null\<close> from
  \<open>getNextLoanPayment\<close>, although no field is lacking.
\<close>

theorem null_with_all_fields_present_counterexample:
  "getNextLoanPayment
     (exampleCtx (exampleCar (Some 1673784000000) (Some 0) (Some 12) (Some 6) (Some 400)) [])
     7 1680350400000 = Inr None
   \<and> getLoanDetails
     (exampleCtx (exampleCar (Some 1673784000000) (Some 0) (Some 12) (Some 6) (Some 400)) [])
     7 1680350400000 = Inr None
   \<and> loanAmount (exampleCar (Some 1673784000000) (Some 0) (Some 12) (Some 6) (Some 400))
       = Some 0
   \<and> monthlyPayment (exampleCar (Some 1673784000000) (Some 0) (Some 12) (Some 6) (Some 400))
       = Some 400
   \<and> loanTerm (exampleCar (Some 1673784000000) (Some 0) (Some 12) (Some 6) (Some 400))
       = Some 12
   \<and> purchaseDate (exampleCar (Some 1673784000000) (Some 0) (Some 12) (Some 6) (Some 400))
       = Some 1673784000000
   \<and> getNextLoanPayment
     (exampleCtx (exampleCar (Some 0) (Some 20000) (Some 12) (Some 6) (Some 400)) [])
     7 1680350400000 = Inr None
   \<and> purchaseDate (exampleCar (Some 0) (Some 20000) (Some 12) (Some 6) (Some 400)) = Some 0"
  by (simp add: getNextLoanPayment_def getLoanDetails_def exampleCtx_def exampleCar_def
        hasAccess_def np_body_def ld_body_def)

section \<open>The balance reported by getLoanDetails\<close>

lemma roundCents_nonneg: "0 \<le> x \<Longrightarrow> 0 \<le> roundCents x"
  unfolding roundCents_def by simp

lemma ld_processPayments_nonneg:
  "0 \<le> b \<Longrightarrow> 0 \<le> fst (ld_processPayments r (b, l) ps)"
  by (simp only: ld_processPayments_eq_np np_processPayments_eq_spec spec_projector_nonneg)

lemma reports_differ_example:
  "\<exists>c' cr' now' d' r'.
      cars (db c') 7 = Some cr' \<and> 0 < orElse (interestRate cr') 0
      \<and> (\<forall>p\<in>set (queryLoanPayments c' 7). date p < now')
      \<and> getNextLoanPayment c' 7 now' = Inr (Some (Due d'))
      \<and> getLoanDetails c' 7 now' = Inr (Some r')
      \<and> np_remainingBalance d' \<noteq> ld_remainingBalance r'"
proof -
  let ?cr = "exampleCar (Some 1675166400000) (Some 20000) (Some 12) (Some 6) (Some 400)"
  let ?ps = "[loanPaymentOf 1 7 400 1678449600000]"
  let ?c = "exampleCtx ?cr ?ps"
  let ?d = "\<lparr> np_nextDueDate = Num 1682942400000, np_monthlyPayment = 400,
              np_amountDue = 400, np_paidThisPeriod = 0, np_remainingBalance = 493121 / 25,
              np_paymentNumber = 3, np_isOverdue = False \<rparr>"
  let ?r = "\<lparr> ld_originalLoanAmount = 20000, ld_loanTerm = 12, ld_interestRate = 6,
              ld_monthlyPayment = 400, ld_loanBank = None, ld_totalPaid = 400,
              ld_totalPrincipal = 0, ld_totalInterest = 0,
              ld_remainingBalance = 1979611 / 100, ld_isPaidOff = False,
              ld_monthsEarly = Num 0, ld_nextPaymentDate = Some (Num 1682942400000),
              ld_isOverdue = False,
              ld_payments = [\<lparr> row_id = 1, row_date = 1678449600000, row_amount = 400,
                               row_principalAmount = 0, row_interestAmount = 0 \<rparr>] \<rparr>"
  have "cars (db ?c) 7 = Some ?cr"
    by (simp add: exampleCtx_def)
  moreover have "0 < orElse (interestRate ?cr) 0"
    by (simp add: exampleCar_def orElse_def)
  moreover have "\<forall>p\<in>set (queryLoanPayments ?c 7). date p < 1680350400000"
    by (simp add: queryLoanPayments_def exampleCtx_def loanPaymentOf_def)
  moreover have "getNextLoanPayment ?c 7 1680350400000 = Inr (Some (Due ?d))"
    by code_simp
  moreover have "getLoanDetails ?c 7 1680350400000 = Inr (Some ?r)"
    by code_simp
  moreover have "np_remainingBalance ?d \<noteq> ld_remainingBalance ?r"
    by simp
  ultimately show ?thesis
    by blast
qed

text \<open>
  C5, as amended.  The \<open>remainingBalance\<close> that \<open>getLoanDetails\<close> reports is the balance
  after the loop plus the interest accrued on it from the last payment date to the current
  time, rounded to cents and then clamped at 0; the clamp changes nothing when the loan amount
  and the interest rate are not negative.  The \<open>remainingBalance\<close> of \<open>getNextLoanPayment\<close>
  is the rounded balance after the loop, with no accrual.  For some loan with a positive rate
  and time elapsed since the last payment the two reports differ.
\<close>

theorem details_balance_accrues_to_now:
  assumes "getLoanDetails c cid now = Inr (Some r)"
      and "cars (db c) cid = Some cr"
      and "loanAmount cr = Some la"
  shows "ld_remainingBalance r
           = max 0 (roundCents
               (fst (ld_processPayments (orElse (interestRate cr) 0 / 100 / 12)
                       (la, orElse (purchaseDate cr) now)
                       (sort_key date (queryLoanPayments c cid)))
                + fst (ld_processPayments (orElse (interestRate cr) 0 / 100 / 12)
                         (la, orElse (purchaseDate cr) now)
                         (sort_key date (queryLoanPayments c cid)))
                  * (orElse (interestRate cr) 0 / 100 / 12)
                  * max 0 (of_int (now - snd (ld_processPayments
                                     (orElse (interestRate cr) 0 / 100 / 12)
                                     (la, orElse (purchaseDate cr) now)
                                     (sort_key date (queryLoanPayments c cid))))
                           / monthMs)))
       \<and> (0 \<le> la \<and> 0 \<le> orElse (interestRate cr) 0 \<longrightarrow>
            ld_remainingBalance r
              = roundCents
                 (fst (ld_processPayments (orElse (interestRate cr) 0 / 100 / 12)
                         (la, orElse (purchaseDate cr) now)
                         (sort_key date (queryLoanPayments c cid)))
                  + fst (ld_processPayments (orElse (interestRate cr) 0 / 100 / 12)
                           (la, orElse (purchaseDate cr) now)
                           (sort_key date (queryLoanPayments c cid)))
                    * (orElse (interestRate cr) 0 / 100 / 12)
                    * max 0 (of_int (now - snd (ld_processPayments
                                       (orElse (interestRate cr) 0 / 100 / 12)
                                       (la, orElse (purchaseDate cr) now)
                                       (sort_key date (queryLoanPayments c cid))))
                             / monthMs)))
       \<and> (\<forall>d pd. getNextLoanPayment c cid now = Inr (Some (Due d))
                   \<and> purchaseDate cr = Some pd \<longrightarrow>
              np_remainingBalance d
                = roundCents
                    (fst (np_processPayments (orElse (interestRate cr) 0 / 100 / 12) (la, pd)
                            (sort_key date (queryLoanPayments c cid)))))
       \<and> (\<exists>c' cr' now' d' r'.
              cars (db c') 7 = Some cr' \<and> 0 < orElse (interestRate cr') 0
              \<and> (\<forall>p\<in>set (queryLoanPayments c' 7). date p < now')
              \<and> getNextLoanPayment c' 7 now' = Inr (Some (Due d'))
              \<and> getLoanDetails c' 7 now' = Inr (Some r')
              \<and> np_remainingBalance d' \<noteq> ld_remainingBalance r')"
proof -
  let ?ps = "queryLoanPayments c cid"
  let ?rate = "orElse (interestRate cr) 0 / 100 / 12"
  let ?st = "ld_processPayments ?rate (la, orElse (purchaseDate cr) now) (sort_key date ?ps)"
  let ?m = "max 0 (of_int (now - snd ?st) / monthMs)"
  from assms(1,2) obtain la2 mp2 lt2 where
    f2: "loanAmount cr = Some la2"
    and r: "r = ld_compute cr la2 mp2 lt2 ?ps now"
    by (rule getLoanDetails_Some)
  from f2 assms(3) have eq2: "la2 = la"
    by simp
  have proj: "ld_projectedBalance cr la ?ps now = roundCents (fst ?st + fst ?st * ?rate * ?m)"
    unfolding ld_projectedBalance_def Let_def ..
  have a: "ld_remainingBalance r = max 0 (roundCents (fst ?st + fst ?st * ?rate * ?m))"
    unfolding r eq2 ld_compute_remainingBalance proj ..
  have b: "ld_remainingBalance r = roundCents (fst ?st + fst ?st * ?rate * ?m)"
    if "0 \<le> la" "0 \<le> orElse (interestRate cr) 0"
  proof -
    have "0 \<le> fst ?st"
      using that(1) by (rule ld_processPayments_nonneg)
    moreover have "0 \<le> ?rate" "0 \<le> ?m"
      using that(2) by simp_all
    ultimately have "0 \<le> fst ?st + fst ?st * ?rate * ?m"
      by simp
    then have "0 \<le> roundCents (fst ?st + fst ?st * ?rate * ?m)"
      by (rule roundCents_nonneg)
    then show ?thesis
      unfolding a by simp
  qed
  have n: "np_remainingBalance d
             = roundCents (fst (np_processPayments ?rate (la, pd) (sort_key date ?ps)))"
    if "getNextLoanPayment c cid now = Inr (Some (Due d))" "purchaseDate cr = Some pd"
    for d pd
  proof -
    from that(1) assms(2) obtain la1 mp1 pd1 lt1 where
      f1: "loanAmount cr = Some la1" "purchaseDate cr = Some pd1"
      and res: "np_compute la1 mp1 pd1 lt1 (interestRate cr) ?ps now = Due d"
      by (rule getNextLoanPayment_Due)
    from f1 assms(3) that(2) have eq1: "la1 = la" "pd1 = pd"
      by simp_all
    show ?thesis
      using np_compute_Due(3) [OF res] unfolding eq1 np_balance_def .
  qed
  show ?thesis
    using a b n reports_differ_example by blast
qed

theorem details_balance_accrues_to_now_witness:
  "ld_processPayments (1 / 200) (20000, 1675166400000) [loanPaymentOf 1 7 400 1678449600000]
     = (15010600 / 761, 1678449600000)
   \<and> ld_remainingBalance
        (ld_compute (exampleCar (Some 1675166400000) (Some 20000) (Some 12) (Some 6) (Some 400))
           20000 400 12 [loanPaymentOf 1 7 400 1678449600000] 1680350400000)
       = 1979611 / 100
   \<and> roundCents (15010600 / 761) = 493121 / 25"
proof -
  let ?cr = "exampleCar (Some 1675166400000) (Some 20000) (Some 12) (Some 6) (Some 400)"
  let ?ps = "[loanPaymentOf 1 7 400 1678449600000]"
  let ?c = "exampleCtx ?cr ?ps"
  have h1: "getLoanDetails ?c 7 1680350400000
              = Inr (Some (ld_compute ?cr 20000 400 12 ?ps 1680350400000))"
    by (simp add: getLoanDetails_def exampleCtx_def exampleCar_def hasAccess_def
          queryLoanPayments_def ld_body_def loanPaymentOf_def)
  have h2: "cars (db ?c) 7 = Some ?cr"
    by (simp add: exampleCtx_def)
  have h3: "loanAmount ?cr = Some 20000"
    by (simp add: exampleCar_def)
  have rate: "orElse (interestRate ?cr) 0 / 100 / 12 = 1 / 200"
    and anchor: "orElse (purchaseDate ?cr) 1680350400000 = 1675166400000"
    by (simp_all add: exampleCar_def orElse_def)
  have q: "sort_key date (queryLoanPayments ?c 7) = ?ps"
    by (simp add: queryLoanPayments_def exampleCtx_def loanPaymentOf_def)
  have st: "ld_processPayments (1 / 200) (20000, 1675166400000) ?ps
              = (15010600 / 761, 1678449600000)"
    by code_simp
  have e: "max 0 (roundCents (15010600 / 761 + 15010600 / 761 * (1 / 200)
             * max 0 (of_int (1680350400000 - 1678449600000) / monthMs))) = 1979611 / 100"
    by code_simp
  have b: "roundCents (15010600 / 761) = 493121 / 25"
    by code_simp
  have r: "ld_remainingBalance (ld_compute ?cr 20000 400 12 ?ps 1680350400000)
             = 1979611 / 100"
    using details_balance_accrues_to_now [OF h1 h2 h3]
    unfolding rate anchor q st fst_conv snd_conv e by blast
  show ?thesis
    by (intro conjI st r b)
qed

text \<open>
  C5 as stated leaves out the clamp.  With an interest rate of minus 120 percent, a
  loan of 1000 and 20 months elapsed, the rounded projection is minus 1000 and
  \<open>getLoanDetails\<close> reports 0.
\<close>

theorem details_balance_clamped_counterexample:
  "getLoanDetails
     (exampleCtx (exampleCar (Some 1673784000000) (Some 1000) (Some 12) (Some (- 120))
                    (Some 100)) [])
     7 1726384320000
     = Inr (Some \<lparr> ld_originalLoanAmount = 1000, ld_loanTerm = 12, ld_interestRate = - 120,
              ld_monthlyPayment = 100, ld_loanBank = None, ld_totalPaid = 0,
              ld_totalPrincipal = 0, ld_totalInterest = 0, ld_remainingBalance = 0,
              ld_isPaidOff = True, ld_monthsEarly = Num 0, ld_nextPaymentDate = None,
              ld_isOverdue = False, ld_payments = [] \<rparr>)
   \<and> ld_processPayments (- 120 / 100 / 12) (1000, 1673784000000) []
       = (1000, 1673784000000)
   \<and> roundCents (1000 + 1000 * (- 120 / 100 / 12)
         * max 0 (of_int (1726384320000 - 1673784000000) / monthMs)) = - 1000"
  by (intro conjI; code_simp)

section \<open>Paying the loan off\<close>

lemma insort_key_snoc:
  "f x \<le> f p \<Longrightarrow> insort_key f x (ys @ [p]) = insort_key f x ys @ [p]"
  by (induction ys) simp_all

lemma sort_key_snoc:
  "\<forall>q\<in>set xs. f q \<le> f p \<Longrightarrow> sort_key f (xs @ [p]) = sort_key f xs @ [p]"
proof (induction xs)
  case Nil
  show ?case by simp
next
  case (Cons x xs)
  then have "sort_key f (xs @ [p]) = sort_key f xs @ [p]" and "f x \<le> f p"
    by simp_all
  then show ?case
    by (simp add: insort_key_snoc)
qed

lemma roundCents_half_cent:
  assumes "x \<le> 1 / 200"
  shows "roundCents x \<le> 1 / 100"
proof -
  have "x * 100 + 1 / 2 < of_int 1 + 1"
    using assms by simp
  then have "\<lfloor>x * 100 + 1 / 2\<rfloor> \<le> 1"
    by (simp only: floor_le_iff)
  then have "(of_int \<lfloor>x * 100 + 1 / 2\<rfloor> :: rat) \<le> 1"
    by (metis of_int_le_1_iff)
  then show ?thesis
    unfolding roundCents_def by simp
qed

lemma spec_applyPayment_payoff:
  assumes "fst s + fst s * r * spec_monthsElapsed (date p) (snd s) - 1 / 200 \<le> amount p"
  shows "fst (spec_applyPayment r s p) \<le> 1 / 200"
  using assms unfolding spec_applyPayment_def Let_def fst_conv
  by (cases "amount p \<le> fst s * r * spec_monthsElapsed (date p) (snd s)")
     (simp_all add: min_def max_def)

lemma spec_applyPayment_payoff_exact:
  assumes "fst s + fst s * r * spec_monthsElapsed (date p) (snd s) \<le> amount p"
  shows "fst (spec_applyPayment r s p) = 0"
  using assms unfolding spec_applyPayment_def Let_def fst_conv
  by (cases "amount p \<le> fst s * r * spec_monthsElapsed (date p) (snd s)")
     (simp_all add: min_def max_def)

text \<open>
  C8, as amended.  Take the state the loop has reached after the payments \<open>ps\<close>, and one more
  payment \<open>p\<close>, dated no earlier than they are.  When the amount of \<open>p\<close> is at least that
  balance plus the interest accrued on it since the last payment date (to within half a
  cent), \<open>getNextLoanPayment\<close> reports \<open>isPaidOff = true\<close>; when it is at least that sum,
  the balance after \<open>p\<close> is 0.  With a rate of 0, or no time elapsed since the last payment,
  the sum is the balance itself.
\<close>

theorem payoff_payment_clears_balance:
  assumes "getNextLoanPayment c cid now = Inr (Some res)"
      and "cars (db c) cid = Some cr"
      and "loanAmount cr = Some la"
      and "purchaseDate cr = Some pd"
      and "queryLoanPayments c cid = ps @ [p]"
      and "\<forall>q\<in>set ps. date q \<le> date p"
      and "np_processPayments (orElse (interestRate cr) 0 / 100 / 12) (la, pd)
             (sort_key date ps) = (balance, lastDate)"
      and "balance + balance * (orElse (interestRate cr) 0 / 100 / 12)
             * max 0 (of_int (date p - lastDate) / monthMs) - 1 / 200 \<le> amount p"
  shows "res = PaidOff
       \<and> roundCents (fst (np_processPayments (orElse (interestRate cr) 0 / 100 / 12) (la, pd)
                            (sort_key date (ps @ [p])))) \<le> 1 / 100
       \<and> (balance + balance * (orElse (interestRate cr) 0 / 100 / 12)
             * max 0 (of_int (date p - lastDate) / monthMs) \<le> amount p
           \<longrightarrow> fst (np_processPayments (orElse (interestRate cr) 0 / 100 / 12) (la, pd)
                       (sort_key date (ps @ [p]))) = 0)"
proof -
  let ?rate = "orElse (interestRate cr) 0 / 100 / 12"
  let ?s = "spec_projector ?rate la pd (sort_key date ps)"
  have s: "?s = (balance, lastDate)"
    using assms(7) by (simp only: np_processPayments_eq_spec)
  have after: "np_processPayments ?rate (la, pd) (sort_key date (ps @ [p]))
                 = spec_applyPayment ?rate ?s p"
    by (simp only: sort_key_snoc [OF assms(6)] np_processPayments_eq_spec spec_projector_snoc)
  have elapsed: "spec_monthsElapsed (date p) lastDate
                   = max 0 (of_int (date p - lastDate) / monthMs)"
    by (simp only: spec_monthsElapsed_def monthMs_spec)
  have tol: "fst ?s + fst ?s * ?rate * spec_monthsElapsed (date p) (snd ?s) - 1 / 200
               \<le> amount p"
    unfolding s fst_conv snd_conv elapsed by (rule assms(8))
  have small: "fst (spec_applyPayment ?rate ?s p) \<le> 1 / 200"
    using tol by (rule spec_applyPayment_payoff)
  then have round: "roundCents (fst (spec_applyPayment ?rate ?s p)) \<le> 1 / 100"
    by (rule roundCents_half_cent)
  from assms(1,2) obtain la1 mp1 pd1 lt1 where
    f1: "loanAmount cr = Some la1" "purchaseDate cr = Some pd1"
    and res: "res = np_compute la1 mp1 pd1 lt1 (interestRate cr) (queryLoanPayments c cid) now"
    by (rule getNextLoanPayment_Some)
  from f1 assms(3,4) have eq1: "la1 = la" "pd1 = pd"
    by simp_all
  have bal: "np_balance la pd (interestRate cr) (ps @ [p])
               = fst (spec_applyPayment ?rate ?s p)"
    unfolding np_balance_def after ..
  have paid: "res = PaidOff"
    unfolding res eq1 assms(5) np_compute_PaidOff bal using round by simp
  have exact: "fst (spec_applyPayment ?rate ?s p) = 0"
    if "balance + balance * ?rate * max 0 (of_int (date p - lastDate) / monthMs) \<le> amount p"
  proof (rule spec_applyPayment_payoff_exact)
    show "fst ?s + fst ?s * ?rate * spec_monthsElapsed (date p) (snd ?s) \<le> amount p"
      unfolding s fst_conv snd_conv elapsed by (rule that)
  qed
  show ?thesis
    unfolding after using paid round exact by blast
qed

theorem payoff_payment_clears_balance_witness:
  "getNextLoanPayment
     (exampleCtx (exampleCar (Some 1673784000000) (Some 20000) (Some 60) (Some 6) (Some 400))
        [loanPaymentOf 1 7 20100 1676414016000]) 7 1676414016000
     = Inr (Some PaidOff)
   \<and> (20000::rat) + 20000 * (1 / 200) * max 0 (of_int (1676414016000 - 1673784000000) / monthMs)
       = 20100"
proof -
  let ?cr = "exampleCar (Some 1673784000000) (Some 20000) (Some 60) (Some 6) (Some 400)"
  let ?p = "loanPaymentOf 1 7 20100 1676414016000"
  let ?c = "exampleCtx ?cr [?p]"
  have h1: "getNextLoanPayment ?c 7 1676414016000
              = Inr (Some (np_compute 20000 400 1673784000000 60 (Some 6) [?p] 1676414016000))"
    by (simp add: getNextLoanPayment_def exampleCtx_def exampleCar_def hasAccess_def
          queryLoanPayments_def np_body_def loanPaymentOf_def)
  have h2: "cars (db ?c) 7 = Some ?cr"
    by (simp add: exampleCtx_def)
  have h3: "loanAmount ?cr = Some 20000" and h4: "purchaseDate ?cr = Some 1673784000000"
    and rate: "orElse (interestRate ?cr) 0 / 100 / 12 = 1 / 200"
    by (simp_all add: exampleCar_def orElse_def)
  have h5: "queryLoanPayments ?c 7 = [] @ [?p]"
    by (simp add: queryLoanPayments_def exampleCtx_def loanPaymentOf_def)
  have h6: "\<forall>q\<in>set []. date q \<le> date ?p"
    by simp
  have h7: "np_processPayments (orElse (interestRate ?cr) 0 / 100 / 12) (20000, 1673784000000)
              (sort_key date []) = (20000, 1673784000000)"
    by simp
  have sum: "(20000::rat) + 20000 * (1 / 200)
               * max 0 (of_int (1676414016000 - 1673784000000) / monthMs) = 20100"
    by (simp add: monthMs_def)
  have h8: "(20000::rat) + 20000 * (orElse (interestRate ?cr) 0 / 100 / 12)
              * max 0 (of_int (date ?p - 1673784000000) / monthMs) - 1 / 200 \<le> amount ?p"
    unfolding rate by (simp add: loanPaymentOf_def monthMs_def)
  have "np_compute 20000 400 1673784000000 60 (Some 6) [?p] 1676414016000 = PaidOff"
    using payoff_payment_clears_balance [OF h1 h2 h3 h4 h5 h6 h7 h8] by blast
  then show ?thesis
    unfolding h1 using sum by simp
qed

text \<open>
  C8 as stated fails when interest has accrued: the payment is applied to interest
  first.  A loan of 20000 at 6 percent shows a remaining balance of 20000; one payment of
  20000 made one 30.44-day month after the purchase leaves a balance of 100, and the loan is
  not reported paid off.
\<close>

theorem payment_of_full_balance_counterexample:
  "getNextLoanPayment
     (exampleCtx (exampleCar (Some 1673784000000) (Some 20000) (Some 60) (Some 6) (Some 400))
        []) 7 1676414016000
     = Inr (Some (Due \<lparr> np_nextDueDate = Num 1676462400000, np_monthlyPayment = 400,
              np_amountDue = 400, np_paidThisPeriod = 0, np_remainingBalance = 20000,
              np_paymentNumber = 1, np_isOverdue = False \<rparr>))
   \<and> getNextLoanPayment
     (exampleCtx (exampleCar (Some 1673784000000) (Some 20000) (Some 60) (Some 6) (Some 400))
        [loanPaymentOf 1 7 20000 1676414016000]) 7 1676414016000
     = Inr (Some (Due \<lparr> np_nextDueDate = Num 1678881600000, np_monthlyPayment = 400,
              np_amountDue = 100, np_paidThisPeriod = 0, np_remainingBalance = 100,
              np_paymentNumber = 2, np_isOverdue = False \<rparr>))"
  by (intro conjI; code_simp)

section \<open>Order of the stored payments\<close>

lemma sort_key_permutation:
  assumes "mset xs = mset ys" and "distinct (map f ys)"
  shows "sort_key f xs = sort_key f ys"
proof (rule sort_key_inj_key_eq)
  show "mset xs = mset (sort_key f ys)"
    using assms(1) by simp
  have "set xs = set ys"
    using assms(1) by (rule mset_eq_setD)
  moreover have "inj_on f (set ys)"
    using assms(2) by (simp add: distinct_map)
  ultimately show "inj_on f (set xs)"
    by simp
  show "sorted (map f (sort_key f ys))"
    by simp
qed

lemma np_compute_sorted_cong:
  "sort_key date xs = sort_key date ys \<Longrightarrow>
     np_compute la mp pd lt rate xs now = np_compute la mp pd lt rate ys now"
  by (simp add: np_compute_def)

lemma ld_compute_sorted_cong:
  "sort_key date xs = sort_key date ys \<Longrightarrow>
     ld_compute cr la mp lt xs now = ld_compute cr la mp lt ys now"
  by (simp add: ld_compute_def)

lemma np_body_sorted_cong:
  assumes "sort_key date xs = sort_key date ys"
  shows "np_body cr xs now = np_body cr ys now"
  unfolding np_body_def
  by (simp add: np_compute_sorted_cong [OF assms] cong: option.case_cong)

lemma ld_body_sorted_cong:
  assumes "sort_key date xs = sort_key date ys"
  shows "ld_body cr xs now = ld_body cr ys now"
  unfolding ld_body_def
  by (simp add: ld_compute_sorted_cong [OF assms] cong: option.case_cong)

text \<open>
  C9, as amended.  Two databases that hold the same expenses in different orders, and agree
  otherwise, give the same results from both handlers when the loan payments of the car have
  pairwise distinct dates.
\<close>

theorem results_independent_of_storage_order:
  assumes "getAuthUserId c' = getAuthUserId c"
      and "cars (db c') = cars (db c)"
      and "carShares (db c') = carShares (db c)"
      and "mset (expenses (db c')) = mset (expenses (db c))"
      and "distinct (map date (queryLoanPayments c cid))"
  shows "getNextLoanPayment c' cid now = getNextLoanPayment c cid now
       \<and> getLoanDetails c' cid now = getLoanDetails c cid now"
proof -
  have "mset (queryLoanPayments c' cid) = mset (queryLoanPayments c cid)"
    unfolding queryLoanPayments_def mset_filter assms(4) ..
  then have s: "sort_key date (queryLoanPayments c' cid)
                  = sort_key date (queryLoanPayments c cid)"
    using assms(5) by (rule sort_key_permutation)
  have a: "hasAccess c' cid cr u = hasAccess c cid cr u" for cr u
    unfolding hasAccess_def assms(3) ..
  have np: "np_body cr (queryLoanPayments c' cid) now
              = np_body cr (queryLoanPayments c cid) now" for cr
    using s by (rule np_body_sorted_cong)
  have ld: "ld_body cr (queryLoanPayments c' cid) now
              = ld_body cr (queryLoanPayments c cid) now" for cr
    using s by (rule ld_body_sorted_cong)
  show ?thesis
    unfolding getNextLoanPayment_def getLoanDetails_def assms(1,2) a np ld by simp
qed

theorem results_independent_of_storage_order_witness:
  "getNextLoanPayment
     (exampleCtx (exampleCar (Some 1673784000000) (Some 20000) (Some 12) (Some 6) (Some 400))
        [loanPaymentOf 2 7 400 1676030400000, loanPaymentOf 1 7 400 1679313600000,
         loanPaymentOf 3 7 400 1681128000000])
     7 1682000000000
   = getNextLoanPayment
     (exampleCtx (exampleCar (Some 1673784000000) (Some 20000) (Some 12) (Some 6) (Some 400))
        [loanPaymentOf 1 7 400 1679313600000, loanPaymentOf 2 7 400 1676030400000,
         loanPaymentOf 3 7 400 1681128000000])
     7 1682000000000
   \<and> getLoanDetails
     (exampleCtx (exampleCar (Some 1673784000000) (Some 20000) (Some 12) (Some 6) (Some 400))
        [loanPaymentOf 2 7 400 1676030400000, loanPaymentOf 1 7 400 1679313600000,
         loanPaymentOf 3 7 400 1681128000000])
     7 1682000000000
   = getLoanDetails
     (exampleCtx (exampleCar (Some 1673784000000) (Some 20000) (Some 12) (Some 6) (Some 400))
        [loanPaymentOf 1 7 400 1679313600000, loanPaymentOf 2 7 400 1676030400000,
         loanPaymentOf 3 7 400 1681128000000])
     7 1682000000000"
proof -
  let ?cr = "exampleCar (Some 1673784000000) (Some 20000) (Some 12) (Some 6) (Some 400)"
  let ?p1 = "loanPaymentOf 1 7 400 1679313600000"
  let ?p2 = "loanPaymentOf 2 7 400 1676030400000"
  let ?p3 = "loanPaymentOf 3 7 400 1681128000000"
  let ?c = "exampleCtx ?cr [?p1, ?p2, ?p3]"
  let ?c' = "exampleCtx ?cr [?p2, ?p1, ?p3]"
  have h1: "getAuthUserId ?c' = getAuthUserId ?c" and h2: "cars (db ?c') = cars (db ?c)"
    and h3: "carShares (db ?c') = carShares (db ?c)"
    by (simp_all add: exampleCtx_def)
  have h4: "mset (expenses (db ?c')) = mset (expenses (db ?c))"
    by (simp add: exampleCtx_def)
  have h5: "distinct (map date (queryLoanPayments ?c 7))"
    by (simp add: queryLoanPayments_def exampleCtx_def loanPaymentOf_def)
  show ?thesis
    using results_independent_of_storage_order [OF h1 h2 h3 h4 h5] .
qed

text \<open>
  C9 as stated includes payments with equal dates, and there it fails: the sort is
  stable, so equal-dated payments are processed in stored order, and only the first of them
  meets the accrued interest.  A loan of 20000 at 6 percent with payments of 50 and 200
  on the same day one month after the purchase ends at 19800 when the 50 is stored first and
  at 19850 when the 200 is stored first, in both handlers.
\<close>

theorem equal_dates_order_counterexample:
  "mset [loanPaymentOf 1 7 50 1676414016000, loanPaymentOf 2 7 200 1676414016000]
     = mset [loanPaymentOf 2 7 200 1676414016000, loanPaymentOf 1 7 50 1676414016000]
   \<and> getNextLoanPayment
     (exampleCtx (exampleCar (Some 1673784000000) (Some 20000) (Some 60) (Some 6) (Some 400))
        [loanPaymentOf 1 7 50 1676414016000, loanPaymentOf 2 7 200 1676414016000])
     7 1676414016000
     = Inr (Some (Due \<lparr> np_nextDueDate = Num 1678881600000, np_monthlyPayment = 400,
              np_amountDue = 400, np_paidThisPeriod = 0, np_remainingBalance = 19800,
              np_paymentNumber = 2, np_isOverdue = False \<rparr>))
   \<and> getNextLoanPayment
     (exampleCtx (exampleCar (Some 1673784000000) (Some 20000) (Some 60) (Some 6) (Some 400))
        [loanPaymentOf 2 7 200 1676414016000, loanPaymentOf 1 7 50 1676414016000])
     7 1676414016000
     = Inr (Some (Due \<lparr> np_nextDueDate = Num 1678881600000, np_monthlyPayment = 400,
              np_amountDue = 400, np_paidThisPeriod = 0, np_remainingBalance = 19850,
              np_paymentNumber = 2, np_isOverdue = False \<rparr>))
   \<and> map_sum id (map_option ld_remainingBalance)
       (getLoanDetails
         (exampleCtx (exampleCar (Some 1673784000000) (Some 20000) (Some 60) (Some 6) (Some 400))
            [loanPaymentOf 1 7 50 1676414016000, loanPaymentOf 2 7 200 1676414016000])
         7 1676414016000)
     = Inr (Some 19800)
   \<and> map_sum id (map_option ld_remainingBalance)
       (getLoanDetails
         (exampleCtx (exampleCar (Some 1673784000000) (Some 20000) (Some 60) (Some 6) (Some 400))
            [loanPaymentOf 2 7 200 1676414016000, loanPaymentOf 1 7 50 1676414016000])
         7 1676414016000)
     = Inr (Some 19850)"
proof (intro conjI)
  show "mset [loanPaymentOf 1 7 50 1676414016000, loanPaymentOf 2 7 200 1676414016000]
     = mset [loanPaymentOf 2 7 200 1676414016000, loanPaymentOf 1 7 50 1676414016000]"
    by (simp add: add_mset_commute)
qed code_simp+

end
